theory Spec2Isabelle
  imports Complex_Main "HOL-Library.Sublist" "HOL-Library.AList"
begin

section \<open>Trip merge and route sequencing: the model\<close>

text \<open>
  A shallow embedding of the trip-merge engine: \<^verbatim>\<open>utils/geo-utils.ts\<close>,
  \<^verbatim>\<open>services/trip-merge-service.ts\<close>, the configuration defaults of the config service and
  the merge, optimise and unmerge handlers of \<^verbatim>\<open>routes/trip-merge-routes.ts\<close>.

  Conventions. JavaScript numbers are modelled as \<^typ>\<open>real\<close> (coordinates, distances,
  thresholds), as \<^typ>\<open>int\<close> (epoch milliseconds, sequence numbers) or as \<^typ>\<open>nat\<close>
  (row ids, array indices); rounding error, \<^verbatim>\<open>NaN\<close> and the infinities of IEEE
  arithmetic are outside the model, and the one place where the source divides by a
  configurable number is written out case by case. \<^verbatim>\<open>null\<close> and \<^verbatim>\<open>undefined\<close> are
  \<^const>\<open>None\<close>. The bookings table is the list of its rows. Everything the code reads from
  outside (configuration, vehicles, the answer of the directions service, the clock) is a
  parameter of the function that reads it. The field \<^verbatim>\<open>id\<close> of a booking is called
  \<open>booking_id\<close>, because \<^const>\<open>id\<close> is the identity function of HOL.
\<close>

subsection \<open>Great-circle distance (\<^verbatim>\<open>GeoUtils\<close>)\<close>

definition EARTH_RADIUS_KM :: real where
  "EARTH_RADIUS_KM = 6371"

definition toRadians :: "real \<Rightarrow> real" where
  "toRadians degrees = degrees * (pi / 180)"

text \<open>\<^verbatim>\<open>Math.atan2(y, x)\<close> on real arguments: the angle of the point \<open>(x, y)\<close> in \<open>(-\<pi>, \<pi>]\<close>.\<close>

definition atan2 :: "real \<Rightarrow> real \<Rightarrow> real" where
  "atan2 y x =
     (if 0 < x then arctan (y / x)
      else if x < 0 then (if 0 \<le> y then arctan (y / x) + pi else arctan (y / x) - pi)
      else if 0 < y then pi / 2
      else if y < 0 then - (pi / 2)
      else 0)"

definition calculateDistance :: "real \<Rightarrow> real \<Rightarrow> real \<Rightarrow> real \<Rightarrow> real" where
  "calculateDistance lat1 lon1 lat2 lon2 =
     (let dLat = toRadians (lat2 - lat1);
          dLon = toRadians (lon2 - lon1);
          a = sin (dLat / 2) * sin (dLat / 2) +
              cos (toRadians lat1) * cos (toRadians lat2) *
              sin (dLon / 2) * sin (dLon / 2);
          c = 2 * atan2 (sqrt a) (sqrt (1 - a));
          distance = EARTH_RADIUS_KM * c
      in distance)"

text \<open>\<^verbatim>\<open>haversineDistance\<close> is the same bound method under a second export name.\<close>

definition haversineDistance :: "real \<Rightarrow> real \<Rightarrow> real \<Rightarrow> real \<Rightarrow> real" where
  "haversineDistance = calculateDistance"

record route_info =
  distance :: real
  duration :: real

record 'a route_with_stops = route_info +
  route :: "'a list"

text \<open>
  \<^verbatim>\<open>calculateRouteWithStops(origin, destination, stops = [])\<close>. Its parameters are untyped;
  an argument the caller leaves out is \<^verbatim>\<open>undefined\<close>, here \<^const>\<open>None\<close>.
\<close>

definition calculateRouteWithStops :: "'a \<Rightarrow> 'a \<Rightarrow> 'a list \<Rightarrow> 'a route_with_stops" where
  "calculateRouteWithStops origin destination stops =
     \<lparr>distance = 0, duration = 0, route = [origin] @ stops @ [destination]\<rparr>"

subsection \<open>Configuration, bookings, vehicles\<close>

record config =
  TRIP_MERGE_PICKUP_DISTANCE_KM :: real
  TRIP_MERGE_DROPOFF_DISTANCE_KM :: real
  TRIP_MERGE_SAME_ZONE_REQUIRED :: bool
  TRIP_MERGE_PICKUP_TIME_WINDOW_MINUTES :: real
  TRIP_MERGE_DROPOFF_TIME_WINDOW_MINUTES :: real
  TRIP_MERGE_MAX_PICKUP_GAP_MINUTES :: real
  TRIP_MERGE_MAX_TRIP_DURATION_MINUTES :: real
  TRIP_MERGE_SAME_VEHICLE_TYPE_REQUIRED :: bool
  TRIP_MERGE_SAME_BOOKING_TYPE_REQUIRED :: bool
  TRIP_MERGE_SAME_PRIORITY_REQUIRED :: bool
  TRIP_MERGE_ROUTE_DEVIATION_TOLERANCE_KM :: real

definition DEFAULT_CONFIG :: config where
  "DEFAULT_CONFIG =
     \<lparr>TRIP_MERGE_PICKUP_DISTANCE_KM = 7,
      TRIP_MERGE_DROPOFF_DISTANCE_KM = 7,
      TRIP_MERGE_SAME_ZONE_REQUIRED = True,
      TRIP_MERGE_PICKUP_TIME_WINDOW_MINUTES = 15,
      TRIP_MERGE_DROPOFF_TIME_WINDOW_MINUTES = 15,
      TRIP_MERGE_MAX_PICKUP_GAP_MINUTES = 15,
      TRIP_MERGE_MAX_TRIP_DURATION_MINUTES = 120,
      TRIP_MERGE_SAME_VEHICLE_TYPE_REQUIRED = True,
      TRIP_MERGE_SAME_BOOKING_TYPE_REQUIRED = True,
      TRIP_MERGE_SAME_PRIORITY_REQUIRED = True,
      TRIP_MERGE_ROUTE_DEVIATION_TOLERANCE_KM = 3\<rparr>"

record latlng =
  lat :: real
  lng :: real

record location =
  coordinates :: latlng
  zone :: "string option"

datatype stop_kind = pickup | dropoff

text \<open>
  The elements of \<^verbatim>\<open>pickupPoints\<close> and \<^verbatim>\<open>dropoffPoints\<close>, and the waypoints built from
  them. \<^verbatim>\<open>stopType\<close> is a string in the source; its only values are the two literals
  of \<^verbatim>\<open>optimizeRoute\<close>.
\<close>

record point =
  location :: latlng
  bookingId :: nat

record waypoint = point +
  stopType :: stop_kind

text \<open>The value \<^verbatim>\<open>optimizeRoute\<close> returns, stored in the column \<^verbatim>\<open>optimized_route\<close>.\<close>

record optimized_route = route_info +
  waypoints :: "waypoint list"
  waypointOrder :: "nat list"
  polyline :: string

record booking =
  booking_id :: nat
  status :: string
  pickup_location :: location
  dropoff_location :: location
  pickup_time :: int
  dropoff_time :: "int option"
  booking_type :: string
  priority :: string
  passenger_count :: "nat option"
  vehicle_type :: "string option"
  vehicle_id :: "nat option"
  assigned_vehicle_id :: "nat option"
  is_merged :: bool
  merged_with_booking_id :: "nat option"
  parent_booking_id :: "nat option"
  merged_booking_ids :: "string list"
  has_merged_trips :: bool
  is_parent_booking :: bool
  trip_id :: "string option"
  optimized_route :: "optimized_route option"
  pickup_sequence :: "int option"
  dropoff_sequence :: "int option"
  route_sequence :: "int option"
  route_polyline :: "string option"
  updated_at :: int
  last_modified_by :: string
  modification_notes :: "string option"

record vehicle =
  v_vehicle_type :: string
  v_capacity :: nat

text \<open>JavaScript truthiness of a nullable id and of a nullable string.\<close>

definition truthy_id :: "nat option \<Rightarrow> bool" where
  "truthy_id x = (case x of None \<Rightarrow> False | Some n \<Rightarrow> n \<noteq> 0)"

definition truthy_string :: "string option \<Rightarrow> bool" where
  "truthy_string x = (case x of None \<Rightarrow> False | Some s \<Rightarrow> s \<noteq> [])"

text \<open>\<^verbatim>\<open>booking.passenger_count || 1\<close>: a missing count and a count of zero both read as one.\<close>

definition passengers :: "booking \<Rightarrow> nat" where
  "passengers b = (case passenger_count b of None \<Rightarrow> 1 | Some n \<Rightarrow> if n = 0 then 1 else n)"

subsection \<open>Core eligibility functions (\<^verbatim>\<open>trip-merge-service.ts\<close>)\<close>

text \<open>
  Each function reads its thresholds with \<^verbatim>\<open>getConfigValue\<close>; here the configuration is
  the first parameter.
\<close>

definition isPickupNearby :: "config \<Rightarrow> location \<Rightarrow> location \<Rightarrow> bool" where
  "isPickupNearby cfg pickupA pickupB =
     (let maxDistance = TRIP_MERGE_PICKUP_DISTANCE_KM cfg;
          sameZoneRequired = TRIP_MERGE_SAME_ZONE_REQUIRED cfg;
          d = calculateDistance (lat (coordinates pickupA)) (lng (coordinates pickupA))
                (lat (coordinates pickupB)) (lng (coordinates pickupB))
      in if d > maxDistance then False
         else if sameZoneRequired \<and> zone pickupA \<noteq> zone pickupB then False
         else True)"

definition isDropoffNearby :: "config \<Rightarrow> location \<Rightarrow> location \<Rightarrow> bool" where
  "isDropoffNearby cfg dropoffA dropoffB =
     (let maxDistance = TRIP_MERGE_DROPOFF_DISTANCE_KM cfg;
          sameZoneRequired = TRIP_MERGE_SAME_ZONE_REQUIRED cfg;
          d = calculateDistance (lat (coordinates dropoffA)) (lng (coordinates dropoffA))
                (lat (coordinates dropoffB)) (lng (coordinates dropoffB))
      in if d > maxDistance then False
         else if sameZoneRequired \<and> zone dropoffA \<noteq> zone dropoffB then False
         else True)"

text \<open>A pair of \<^verbatim>\<open>Date\<close>s, each read with \<^verbatim>\<open>getTime()\<close> as epoch milliseconds.\<close>

record times =
  t_pickup :: int
  t_dropoff :: int

definition isTimeCompatible :: "config \<Rightarrow> times \<Rightarrow> times \<Rightarrow> bool" where
  "isTimeCompatible cfg timeA timeB =
     (let pickupTimeWindowMs = TRIP_MERGE_PICKUP_TIME_WINDOW_MINUTES cfg * 60 * 1000;
          dropoffTimeWindowMs = TRIP_MERGE_DROPOFF_TIME_WINDOW_MINUTES cfg * 60 * 1000
      in if real_of_int \<bar>t_pickup timeA - t_pickup timeB\<bar> > pickupTimeWindowMs then False
         else if real_of_int \<bar>t_dropoff timeA - t_dropoff timeB\<bar> > dropoffTimeWindowMs then False
         else True)"

text \<open>
  The next three functions read \<^verbatim>\<open>bookings[0]\<close>. On an empty array that is
  \<^verbatim>\<open>undefined\<close> and the property access raises a TypeError: the result \<^const>\<open>None\<close>.
\<close>

definition isVehicleCompatible :: "config \<Rightarrow> vehicle \<Rightarrow> booking list \<Rightarrow> bool option" where
  "isVehicleCompatible cfg vehicle bookings =
     (case bookings of
        [] \<Rightarrow> None
      | b0 # _ \<Rightarrow>
          Some (if TRIP_MERGE_SAME_VEHICLE_TYPE_REQUIRED cfg \<and>
                   list_ex (\<lambda>b. vehicle_type b \<noteq> vehicle_type b0) bookings then False
                else if truthy_string (vehicle_type b0) \<and>
                        Some (v_vehicle_type vehicle) \<noteq> vehicle_type b0 then False
                else if v_capacity vehicle < sum_list (map passengers bookings) then False
                else True))"

definition isBookingTypeCompatible :: "config \<Rightarrow> booking list \<Rightarrow> bool option" where
  "isBookingTypeCompatible cfg bookings =
     (if \<not> TRIP_MERGE_SAME_BOOKING_TYPE_REQUIRED cfg then Some True
      else case bookings of
             [] \<Rightarrow> None
           | b0 # _ \<Rightarrow> Some (list_all (\<lambda>b. booking_type b = booking_type b0) bookings))"

definition isPriorityMatchSafe :: "config \<Rightarrow> booking list \<Rightarrow> bool option" where
  "isPriorityMatchSafe cfg bookings =
     (if \<not> TRIP_MERGE_SAME_PRIORITY_REQUIRED cfg then Some True
      else case bookings of
             [] \<Rightarrow> None
           | b0 # _ \<Rightarrow> Some (list_all (\<lambda>b. priority b = priority b0) bookings))"

definition isRouteDeviationAllowed ::
  "config \<Rightarrow> 'a route_info_scheme \<Rightarrow> 'b route_info_scheme \<Rightarrow> bool" where
  "isRouteDeviationAllowed cfg originalRoute mergedRoute =
     (let toleranceKm = TRIP_MERGE_ROUTE_DEVIATION_TOLERANCE_KM cfg;
          originalDistance = distance originalRoute;
          mergedDistance = distance mergedRoute;
          deviation = \<bar>mergedDistance - originalDistance\<bar>
      in deviation \<le> toleranceKm)"

text \<open>The \<^verbatim>\<open>for\<close> loop over consecutive sorted pickup times, from index 1.\<close>

fun gaps_within :: "real \<Rightarrow> int list \<Rightarrow> bool" where
  "gaps_within maxPickupGapMs (t0 # t1 # ts) =
     (if real_of_int (t1 - t0) > maxPickupGapMs then False
      else gaps_within maxPickupGapMs (t1 # ts))"
| "gaps_within maxPickupGapMs ts = True"

definition isPickupGapAcceptable :: "config \<Rightarrow> booking list \<Rightarrow> bool" where
  "isPickupGapAcceptable cfg bookings =
     (let maxPickupGapMs = TRIP_MERGE_MAX_PICKUP_GAP_MINUTES cfg * 60 * 1000;
          pickupTimes = sort (map pickup_time bookings)
      in gaps_within maxPickupGapMs pickupTimes)"

definition isDurationWithinLimit :: "config \<Rightarrow> 'a route_info_scheme \<Rightarrow> bool" where
  "isDurationWithinLimit cfg mergedRoute =
     (let maxTripDurationMs = TRIP_MERGE_MAX_TRIP_DURATION_MINUTES cfg * 60 * 1000
      in duration mergedRoute \<le> maxTripDurationMs)"

definition isZoneAllowed :: "string list \<Rightarrow> bool" where
  "isZoneAllowed zones = True"

subsection \<open>\<^verbatim>\<open>checkMergeEligibility\<close>\<close>

text \<open>
  The checks of the loop body, named in the order the source makes them. The body of the
  loop is \<open>checkCandidate\<close>: it returns the checks it made, in order, and whether the
  candidate reached \<^verbatim>\<open>eligibleBookings.push\<close>. Every \<^verbatim>\<open>continue\<close> of the source is
  one branch. A check that raises is caught by the \<^verbatim>\<open>try\<close> around the body, which
  skips the candidate exactly as a failed check does (\<open>passed\<close>).
\<close>

datatype checkpoint =
    SelfExclusion | PickupProximity | DropoffProximity | TimeCompatibility
  | TypeCompatibility | PriorityCompatibility | VehicleCompatibility
  | RouteDeviation | PickupGap | TripDuration | ZoneRestriction
  | Existence | AlreadyMerged

definition passed :: "bool option \<Rightarrow> bool" where
  "passed r = (r = Some True)"

text \<open>\<^verbatim>\<open>dropoff_time || new Date(pickup_time.getTime() + 3600000)\<close>.\<close>

definition timesOf :: "booking \<Rightarrow> times" where
  "timesOf b =
     \<lparr>t_pickup = pickup_time b,
      t_dropoff = (case dropoff_time b of Some t \<Rightarrow> t | None \<Rightarrow> pickup_time b + 3600000)\<rparr>"

definition zoneOrEmpty :: "location \<Rightarrow> string" where
  "zoneOrEmpty l = (case zone l of None \<Rightarrow> [] | Some z \<Rightarrow> z)"

text \<open>
  \<^verbatim>\<open>candidate.vehicle_id ? await storage.getVehicle(candidate.vehicle_id) : null\<close>, with
  \<^verbatim>\<open>storage.getVehicle\<close> as a parameter.
\<close>

definition candidateVehicle :: "(nat \<Rightarrow> vehicle option) \<Rightarrow> booking \<Rightarrow> vehicle option" where
  "candidateVehicle getVehicle candidate =
     (case vehicle_id candidate of
        None \<Rightarrow> None
      | Some v \<Rightarrow> if v = 0 then None else getVehicle v)"

text \<open>The two route objects of the loop body.\<close>

definition originalRouteOf :: "booking \<Rightarrow> route_info" where
  "originalRouteOf booking =
     \<lparr>distance = calculateDistance
          (lat (coordinates (pickup_location booking)))
          (lng (coordinates (pickup_location booking)))
          (lat (coordinates (dropoff_location booking)))
          (lng (coordinates (dropoff_location booking))),
      duration = 30 * 60 * 1000\<rparr>"

definition mergedRouteOf :: "booking \<Rightarrow> booking \<Rightarrow> latlng list option route_with_stops" where
  "mergedRouteOf booking candidate =
     calculateRouteWithStops
       (Some [coordinates (pickup_location booking),
              coordinates (pickup_location candidate),
              coordinates (dropoff_location booking),
              coordinates (dropoff_location candidate)]) None []"

definition checkCandidate ::
  "config \<Rightarrow> (nat \<Rightarrow> vehicle option) \<Rightarrow> booking \<Rightarrow> booking \<Rightarrow> checkpoint list \<times> bool" where
  "checkCandidate cfg getVehicle booking candidate =
     (if booking_id booking = booking_id candidate then ([SelfExclusion], False)
      else if \<not> isPickupNearby cfg (pickup_location booking) (pickup_location candidate)
        then ([SelfExclusion, PickupProximity], False)
      else if \<not> isDropoffNearby cfg (dropoff_location booking) (dropoff_location candidate)
        then ([SelfExclusion, PickupProximity, DropoffProximity], False)
      else if \<not> isTimeCompatible cfg (timesOf booking) (timesOf candidate)
        then ([SelfExclusion, PickupProximity, DropoffProximity, TimeCompatibility], False)
      else if \<not> passed (isBookingTypeCompatible cfg [booking, candidate])
        then ([SelfExclusion, PickupProximity, DropoffProximity, TimeCompatibility,
               TypeCompatibility], False)
      else if \<not> passed (isPriorityMatchSafe cfg [booking, candidate])
        then ([SelfExclusion, PickupProximity, DropoffProximity, TimeCompatibility,
               TypeCompatibility, PriorityCompatibility], False)
      else
        let vehicle = candidateVehicle getVehicle candidate;
            made = [SelfExclusion, PickupProximity, DropoffProximity, TimeCompatibility,
                    TypeCompatibility, PriorityCompatibility] @
                   (if vehicle = None then [] else [VehicleCompatibility])
        in
        if (case vehicle of None \<Rightarrow> False
            | Some v \<Rightarrow> \<not> passed (isVehicleCompatible cfg v [booking, candidate]))
          then (made, False)
        else
          let originalRoute = originalRouteOf booking;
              mergedRoute = mergedRouteOf booking candidate
          in
          if \<not> isRouteDeviationAllowed cfg originalRoute mergedRoute
            then (made @ [RouteDeviation], False)
          else if \<not> isPickupGapAcceptable cfg [booking, candidate]
            then (made @ [RouteDeviation, PickupGap], False)
          else if \<not> isDurationWithinLimit cfg mergedRoute
            then (made @ [RouteDeviation, PickupGap, TripDuration], False)
          else if \<not> isZoneAllowed [zoneOrEmpty (pickup_location booking),
                                     zoneOrEmpty (pickup_location candidate),
                                     zoneOrEmpty (dropoff_location booking),
                                     zoneOrEmpty (dropoff_location candidate)]
            then (made @ [RouteDeviation, PickupGap, TripDuration, ZoneRestriction], False)
          else (made @ [RouteDeviation, PickupGap, TripDuration, ZoneRestriction], True))"

text \<open>The \<^verbatim>\<open>for ... of candidateBookings\<close> loop, with \<^verbatim>\<open>eligibleBookings\<close> as accumulator.\<close>

fun checkMergeEligibility_loop ::
  "config \<Rightarrow> (nat \<Rightarrow> vehicle option) \<Rightarrow> booking \<Rightarrow> booking list \<Rightarrow> booking list \<Rightarrow> booking list" where
  "checkMergeEligibility_loop cfg getVehicle booking [] eligibleBookings = eligibleBookings"
| "checkMergeEligibility_loop cfg getVehicle booking (candidate # rest) eligibleBookings =
     (if snd (checkCandidate cfg getVehicle booking candidate)
      then checkMergeEligibility_loop cfg getVehicle booking rest (eligibleBookings @ [candidate])
      else checkMergeEligibility_loop cfg getVehicle booking rest eligibleBookings)"

definition checkMergeEligibility ::
  "config \<Rightarrow> (nat \<Rightarrow> vehicle option) \<Rightarrow> booking \<Rightarrow> booking list \<Rightarrow> booking list" where
  "checkMergeEligibility cfg getVehicle booking candidateBookings =
     checkMergeEligibility_loop cfg getVehicle booking candidateBookings []"

subsection \<open>\<^verbatim>\<open>getMergeRecommendations\<close>\<close>

record recommendation =
  tripId :: nat
  compatibilityScore :: int
  pickupDistanceKm :: real
  dropoffDistanceKm :: real






subsection \<open>\<^verbatim>\<open>optimizeRoute\<close> (\<^verbatim>\<open>trip-merge-routes.ts\<close>)\<close>

text \<open>
  What the directions service answers. \<open>Unreachable\<close>: \<^verbatim>\<open>fetch\<close> or \<^verbatim>\<open>response.json()\<close>
  raises; \<open>HttpError\<close>: \<^verbatim>\<open>response.ok\<close> is false; \<open>Reply status routes\<close>: the parsed body
  (\<^verbatim>\<open>data.status\<close>, and \<^verbatim>\<open>data.routes\<close> with a missing array read as the empty one).
  Leg distances are metres and leg durations seconds.
\<close>

record leg =
  distance_value :: real
  duration_value :: real

record directions_route =
  waypoint_order :: "nat list option"
  legs :: "leg list"
  overview_polyline :: "string option"

datatype directions_reply = Unreachable | HttpError | Reply string "directions_route list"

text \<open>The two kinds of element of the \<^verbatim>\<open>waypoints\<close> array.\<close>

definition pickupWaypoint :: "point \<Rightarrow> waypoint" where
  "pickupWaypoint pt = \<lparr>location = location pt, bookingId = bookingId pt, stopType = pickup\<rparr>"

definition dropoffWaypoint :: "point \<Rightarrow> waypoint" where
  "dropoffWaypoint pt = \<lparr>location = location pt, bookingId = bookingId pt, stopType = dropoff\<rparr>"

text \<open>
  The first \<^verbatim>\<open>sequenceMap\<close>: booking id to the positions of its pickup and its dropoff in
  the optimised order. A \<^verbatim>\<open>Map\<close> keeps insertion order, so it is an association list;
  \<^const>\<open>None\<close> is the initial \<^verbatim>\<open>Infinity\<close>.
\<close>

record index_pair =
  pickupIndex :: "nat option"
  dropoffIndex :: "nat option"

definition initSequenceMap :: "waypoint list \<Rightarrow> (nat \<times> index_pair) list" where
  "initSequenceMap wps =
     fold (\<lambda>wp m. if map_of m (bookingId wp) = None
                   then AList.update (bookingId wp) \<lparr>pickupIndex = None, dropoffIndex = None\<rparr> m
                   else m) wps []"

text \<open>
  One step of \<^verbatim>\<open>optimizedWaypointOrder.forEach((waypointIdx, sequenceIdx) => ...)\<close>. Every
  booking id of a waypoint is a key of the map by then, so \<^verbatim>\<open>get\<close> finds it.
\<close>

definition recordIndex ::
  "waypoint list \<Rightarrow> nat \<times> nat \<Rightarrow> (nat \<times> index_pair) list \<Rightarrow> (nat \<times> index_pair) list" where
  "recordIndex wps e m =
     (let waypointIdx = fst e; sequenceIdx = snd e;
          waypoint = wps ! waypointIdx
      in case map_of m (bookingId waypoint) of
           None \<Rightarrow> m
         | Some currentMapping \<Rightarrow>
             AList.update (bookingId waypoint)
               (if stopType waypoint = pickup
                then currentMapping\<lparr>pickupIndex := Some sequenceIdx\<rparr>
                else currentMapping\<lparr>dropoffIndex := Some sequenceIdx\<rparr>) m)"

text \<open>The map after the two \<^verbatim>\<open>forEach\<close> loops: initialised, then filled from the order.\<close>

definition indexMap :: "waypoint list \<Rightarrow> nat list \<Rightarrow> (nat \<times> index_pair) list" where
  "indexMap wps optimizedWaypointOrder =
     fold (recordIndex wps)
       (zip optimizedWaypointOrder [0..<length optimizedWaypointOrder])
       (initSequenceMap wps)"

text \<open>\<^verbatim>\<open>mapping.pickupIndex > mapping.dropoffIndex\<close>, where either side may be \<^verbatim>\<open>Infinity\<close>.\<close>

definition index_gt :: "nat option \<Rightarrow> nat option \<Rightarrow> bool" where
  "index_gt p d =
     (case d of None \<Rightarrow> False
      | Some dv \<Rightarrow> (case p of None \<Rightarrow> True | Some pv \<Rightarrow> pv > dv))"

definition requiresAdjustment :: "(nat \<times> index_pair) list \<Rightarrow> bool" where
  "requiresAdjustment sequenceMap =
     list_ex (\<lambda>e. index_gt (pickupIndex (snd e)) (dropoffIndex (snd e))) sequenceMap"

text \<open>
  The repair branch: the pickups sorted by distance from the start (the comparator
  \<^verbatim>\<open>distA - distB\<close> with the stable \<^verbatim>\<open>Array.prototype.sort\<close>), then for each of them in that
  order the first dropoff with the same booking id, if there is one.
\<close>

definition distanceFrom :: "latlng \<Rightarrow> waypoint \<Rightarrow> real" where
  "distanceFrom startLocation wp =
     haversineDistance (lat startLocation) (lng startLocation)
       (lat (location wp)) (lng (location wp))"

definition repairOrder :: "latlng \<Rightarrow> waypoint list \<Rightarrow> waypoint list" where
  "repairOrder startLocation wps =
     (let sortedPickups = sort_key (distanceFrom startLocation)
                            (filter (\<lambda>wp. stopType wp = pickup) wps);
          pickupBookingIds = map bookingId sortedPickups;
          dropoffs = filter (\<lambda>wp. stopType wp = dropoff) wps
      in fold (\<lambda>b reorderedWaypoints.
                 case find (\<lambda>d. bookingId d = b) dropoffs of
                   Some matchingDropoff \<Rightarrow> reorderedWaypoints @ [matchingDropoff]
                 | None \<Rightarrow> reorderedWaypoints)
           pickupBookingIds sortedPickups)"

text \<open>
  \<^verbatim>\<open>optimizeRoute\<close>. \<open>apiKey\<close> is what \<^verbatim>\<open>getGoogleMapsApiKey()\<close> returns and \<open>reply\<close>
  what the request returns. Every path into the \<^verbatim>\<open>catch\<close> block returns \<^verbatim>\<open>null\<close>: an
  empty \<^verbatim>\<open>dropoffPoints\<close> (its last element is read for the destination) and an index of
  the returned order outside the waypoint array (the element is \<^verbatim>\<open>undefined\<close> and its
  \<^verbatim>\<open>bookingId\<close> is read).
\<close>

definition optimizeRoute ::
  "string \<Rightarrow> directions_reply \<Rightarrow> point list \<Rightarrow> point list \<Rightarrow> latlng \<Rightarrow> optimized_route option" where
  "optimizeRoute apiKey reply pickupPoints dropoffPoints startLocation =
     (if apiKey = [] then None
      else
        let wps = map pickupWaypoint pickupPoints @ map dropoffWaypoint dropoffPoints
        in
        if length wps < 1 then None
        else if dropoffPoints = [] then None
        else
          case reply of
            Unreachable \<Rightarrow> None
          | HttpError \<Rightarrow> None
          | Reply st routes \<Rightarrow>
              if st \<noteq> ''OK'' then None
              else
                (case routes of
                  [] \<Rightarrow> None
                | r # _ \<Rightarrow>
                    let optimizedWaypointOrder =
                          (case waypoint_order r of None \<Rightarrow> [] | Some ord \<Rightarrow> ord);
                        totalDistance = sum_list (map distance_value (legs r)) / 1000;
                        totalDuration = sum_list (map duration_value (legs r)) / 60;
                        encodedPolyline =
                          (case overview_polyline r of None \<Rightarrow> [] | Some pts \<Rightarrow> pts)
                    in
                    if list_ex (\<lambda>idx. length wps \<le> idx) optimizedWaypointOrder then None
                    else
                      let sequenceMap = indexMap wps optimizedWaypointOrder
                      in
                      if requiresAdjustment sequenceMap
                      then
                        let reorderedWaypoints = repairOrder startLocation wps
                        in Some \<lparr>distance = totalDistance, duration = totalDuration,
                                 waypoints = reorderedWaypoints,
                                 waypointOrder = [0..<length reorderedWaypoints],
                                 polyline = encodedPolyline\<rparr>
                      else
                        let reorderedWaypoints = map (\<lambda>idx. wps ! idx) optimizedWaypointOrder
                        in Some \<lparr>distance = totalDistance, duration = totalDuration,
                                 waypoints = reorderedWaypoints,
                                 waypointOrder = optimizedWaypointOrder,
                                 polyline = encodedPolyline\<rparr>))"

subsection \<open>The bookings table\<close>

text \<open>
  \<^verbatim>\<open>const [row] = await tx.select().from(bookings).where(eq(bookings.id, i))\<close> is the
  first row with that id, if any; \<^verbatim>\<open>tx.update(bookings).set(...).where(...)\<close> changes every
  row the condition selects and no other.
\<close>

definition selectById :: "booking list \<Rightarrow> nat \<Rightarrow> booking option" where
  "selectById db i = find (\<lambda>b. booking_id b = i) db"

definition updateWhere :: "(booking \<Rightarrow> bool) \<Rightarrow> (booking \<Rightarrow> booking) \<Rightarrow> booking list \<Rightarrow> booking list" where
  "updateWhere cond set_fields db = map (\<lambda>b. if cond b then set_fields b else b) db"

text \<open>The decimal rendering of a number (\<^verbatim>\<open>toString()\<close>, a template literal).\<close>

definition digit :: "nat \<Rightarrow> char" where
  "digit d = ''0123456789'' ! d"

function showNat :: "nat \<Rightarrow> string" where
  "showNat n = (if n < 10 then [digit n] else showNat (n div 10) @ [digit (n mod 10)])"
  by pat_completeness auto
termination
  by (relation "measure (\<lambda>n. n)") auto

declare showNat.simps [simp del]

subsection \<open>Merge: \<^verbatim>\<open>POST /api/bookings/merge\<close>\<close>

text \<open>The four \<^verbatim>\<open>throw new Error(...)\<close> of the transaction, with their messages.\<close>

datatype merge_error =
    ParentNotFound | ParentIsMerged | ChildNotFound nat | ChildAlreadyMerged nat

fun errorMessage :: "merge_error \<Rightarrow> string" where
  "errorMessage ParentNotFound = ''Parent booking not found''"
| "errorMessage ParentIsMerged = ''Cannot use a merged booking as a parent''"
| "errorMessage (ChildNotFound childId) =
     ''Child booking with id '' @ showNat childId @ '' not found''"
| "errorMessage (ChildAlreadyMerged childId) =
     ''Child booking with id '' @ showNat childId @ '' is already merged''"

text \<open>The loop that verifies the children; it stops at the first \<^verbatim>\<open>throw\<close>.\<close>

fun verifyChildren :: "booking list \<Rightarrow> nat list \<Rightarrow> merge_error option" where
  "verifyChildren db [] = None"
| "verifyChildren db (childId # rest) =
     (case selectById db childId of
        None \<Rightarrow> Some (ChildNotFound childId)
      | Some childBooking \<Rightarrow>
          if is_merged childBooking then Some (ChildAlreadyMerged childId)
          else verifyChildren db rest)"

text \<open>
  The second \<^verbatim>\<open>sequenceMap\<close>, built from the waypoints of the optimised route: booking id
  to the indices of its pickup and dropoff there, both \<open>-1\<close> at first.
\<close>

record sequence_pair =
  pickupSequence :: int
  dropoffSequence :: int

definition recordSequence ::
  "waypoint \<times> nat \<Rightarrow> (nat \<times> sequence_pair) list \<Rightarrow> (nat \<times> sequence_pair) list" where
  "recordSequence e m =
     (let waypoint = fst e; index = snd e;
          current = (case map_of m (bookingId waypoint) of
                       None \<Rightarrow> \<lparr>pickupSequence = - 1, dropoffSequence = - 1\<rparr>
                     | Some found \<Rightarrow> found)
      in AList.update (bookingId waypoint)
           (if stopType waypoint = pickup
            then current\<lparr>pickupSequence := int index\<rparr>
            else current\<lparr>dropoffSequence := int index\<rparr>) m)"

definition buildSequenceMap :: "waypoint list \<Rightarrow> (nat \<times> sequence_pair) list" where
  "buildSequenceMap wps = fold recordSequence (zip wps [0..<length wps]) []"

definition setSequences :: "nat \<Rightarrow> int \<Rightarrow> int \<Rightarrow> booking list \<Rightarrow> booking list" where
  "setSequences i p d db =
     updateWhere (\<lambda>b. booking_id b = i)
       (\<lambda>b. b\<lparr>pickup_sequence := Some p, dropoff_sequence := Some d\<rparr>) db"

definition applySequences :: "(nat \<times> sequence_pair) list \<Rightarrow> booking list \<Rightarrow> booking list" where
  "applySequences sequenceEntries db =
     fold (\<lambda>e. setSequences (fst e) (pickupSequence (snd e)) (dropoffSequence (snd e)))
       sequenceEntries db"

text \<open>The fallback numbering, \<^verbatim>\<open>for (let i = 0; i < allBookingIds.length; i++)\<close>.\<close>

definition fallbackStep :: "nat list \<Rightarrow> nat \<Rightarrow> booking list \<Rightarrow> booking list" where
  "fallbackStep allBookingIds i db =
     setSequences (allBookingIds ! i) (int i) (int (length allBookingIds) * 2 - int i - 1) db"

definition fallbackSequences :: "nat list \<Rightarrow> booking list \<Rightarrow> booking list" where
  "fallbackSequences allBookingIds db =
     fold (fallbackStep allBookingIds) [0..<length allBookingIds] db"

record trip_summary =
  tripId :: string
  trip_route :: "optimized_route option"
  trip_sequence :: "waypoint list option"

record merge_result =
  parent :: "booking option"
  children :: "booking list"
  trip :: trip_summary

text \<open>The arguments of the call to \<^verbatim>\<open>optimizeRoute\<close>.\<close>

definition pickupPointsOf :: "booking list \<Rightarrow> point list" where
  "pickupPointsOf allBookings =
     map (\<lambda>b. \<lparr>location = coordinates (pickup_location b), bookingId = booking_id b\<rparr>)
       allBookings"

definition dropoffPointsOf :: "booking list \<Rightarrow> point list" where
  "dropoffPointsOf allBookings =
     map (\<lambda>b. \<lparr>location = coordinates (dropoff_location b), bookingId = booking_id b\<rparr>)
       allBookings"

definition startLocationOf :: "booking \<Rightarrow> latlng" where
  "startLocationOf parentBooking =
     (if truthy_id (assigned_vehicle_id parentBooking)
      then \<lparr>lat = 25.276987, lng = 55.296249\<rparr>
      else coordinates (pickup_location parentBooking))"

text \<open>The update of the parent, then the loop that updates each child.\<close>

definition markParent ::
  "string \<Rightarrow> optimized_route option \<Rightarrow> nat \<Rightarrow> nat list \<Rightarrow> booking list \<Rightarrow> booking list" where
  "markParent newTripId optimizedRoute parentBookingId childBookingIds db =
     updateWhere (\<lambda>b. booking_id b = parentBookingId)
       (\<lambda>b. b\<lparr>has_merged_trips := True,
               merged_booking_ids := map showNat childBookingIds,
               status := ''confirmed'',
               trip_id := Some newTripId,
               optimized_route := optimizedRoute\<rparr>) db"

definition markChild :: "string \<Rightarrow> nat \<Rightarrow> nat \<Rightarrow> booking list \<Rightarrow> booking list" where
  "markChild newTripId parentBookingId childId db =
     updateWhere (\<lambda>b. booking_id b = childId)
       (\<lambda>b. b\<lparr>merged_with_booking_id := Some parentBookingId,
               is_merged := True,
               status := ''merged'',
               trip_id := Some newTripId\<rparr>) db"

definition markMerged ::
  "string \<Rightarrow> optimized_route option \<Rightarrow> nat \<Rightarrow> nat list \<Rightarrow> booking list \<Rightarrow> booking list" where
  "markMerged newTripId optimizedRoute parentBookingId childBookingIds db =
     fold (markChild newTripId parentBookingId) childBookingIds
       (markParent newTripId optimizedRoute parentBookingId childBookingIds db)"

text \<open>The sequence numbers: from the optimised route if there is one, else the fallback.\<close>

definition assignSequences ::
  "optimized_route option \<Rightarrow> nat \<Rightarrow> nat list \<Rightarrow> booking list \<Rightarrow> booking list" where
  "assignSequences optimizedRoute parentBookingId childBookingIds db =
     (case optimizedRoute of
        Some r \<Rightarrow> applySequences (buildSequenceMap (waypoints r)) db
      | None \<Rightarrow> fallbackSequences (parentBookingId # childBookingIds) db)"

text \<open>
  The transaction of the handler. \<open>newTripId\<close> is what \<^verbatim>\<open>generateTripId()\<close> makes of
  the clock. The result is the value or error of the callback and the table afterwards: a
  \<^verbatim>\<open>throw\<close> rolls the transaction back, and all four are raised before the first write.
  The children are read a second time for \<^verbatim>\<open>allBookings\<close>; each was found a moment
  before, in the same transaction. (Before the transaction the handler answers 400 to a
  request whose \<^verbatim>\<open>parentBookingId\<close> is falsy or whose \<^verbatim>\<open>childBookingIds\<close> is not a
  non-empty array.)
\<close>

definition merge ::
  "string \<Rightarrow> directions_reply \<Rightarrow> string \<Rightarrow> booking list \<Rightarrow> nat \<Rightarrow> nat list
   \<Rightarrow> (merge_error + merge_result) \<times> booking list" where
  "merge apiKey reply newTripId db parentBookingId childBookingIds =
     (case selectById db parentBookingId of
        None \<Rightarrow> (Inl ParentNotFound, db)
      | Some parentBooking \<Rightarrow>
          if is_merged parentBooking then (Inl ParentIsMerged, db)
          else
            (case verifyChildren db childBookingIds of
              Some e \<Rightarrow> (Inl e, db)
            | None \<Rightarrow>
                let allBookings = parentBooking # List.map_filter (selectById db) childBookingIds;
                    optimizedRoute = optimizeRoute apiKey reply (pickupPointsOf allBookings)
                                       (dropoffPointsOf allBookings)
                                       (startLocationOf parentBooking);
                    db2 = markMerged newTripId optimizedRoute parentBookingId childBookingIds db;
                    db3 = assignSequences optimizedRoute parentBookingId childBookingIds db2
                in (Inr \<lparr>parent = selectById db3 parentBookingId,
                         children = filter (\<lambda>b. merged_with_booking_id b = Some parentBookingId)
                                      db3,
                         trip = \<lparr>tripId = newTripId,
                                 trip_route = optimizedRoute,
                                 trip_sequence = map_option waypoints optimizedRoute\<rparr>\<rparr>,
                    db3)))"

subsection \<open>Unmerge: \<^verbatim>\<open>POST /api/bookings/:id/unmerge\<close>\<close>

datatype unmerge_response = NotFound404 | NotMerged400 | Unmerged200

text \<open>
  The handler from the parsed id \<open>unmergeId\<close> on. \<open>username\<close> is \<^verbatim>\<open>req.user?.username\<close>; \<open>now1\<close>
  and \<open>now2\<close> are the two readings of the clock. The count of the remaining children is
  taken after the first update, inside the same transaction.
\<close>

definition unmerge ::
  "string option \<Rightarrow> int \<Rightarrow> int \<Rightarrow> booking list \<Rightarrow> nat \<Rightarrow> unmerge_response \<times> booking list" where
  "unmerge username now1 now2 db unmergeId =
     (case selectById db unmergeId of
        None \<Rightarrow> (NotFound404, db)
      | Some bookingToUnmerge \<Rightarrow>
          if \<not> is_merged bookingToUnmerge \<or> \<not> truthy_id (parent_booking_id bookingToUnmerge)
          then (NotMerged400, db)
          else
            (case parent_booking_id bookingToUnmerge of
              None \<Rightarrow> (NotMerged400, db)
            | Some parentBookingId \<Rightarrow>
                let modifier = (if truthy_string username
                                then (case username of Some u \<Rightarrow> u | None \<Rightarrow> ''system'')
                                else ''system'');
                    db1 = updateWhere (\<lambda>b. booking_id b = unmergeId)
                            (\<lambda>b. b\<lparr>is_merged := False,
                                    parent_booking_id := None,
                                    trip_id := None,
                                    status := (if status bookingToUnmerge = ''assigned''
                                               then ''approved''
                                               else status bookingToUnmerge),
                                    route_sequence := None,
                                    route_polyline := None,
                                    updated_at := now1,
                                    last_modified_by := modifier,
                                    modification_notes :=
                                      Some (''Unmerged from trip with parent booking ID '' @
                                            showNat parentBookingId)\<rparr>) db;
                    childCount = length (filter (\<lambda>b. parent_booking_id b = Some parentBookingId
                                                      \<and> is_merged b) db1);
                    db2 = (if childCount = 0
                           then updateWhere (\<lambda>b. booking_id b = parentBookingId)
                                  (\<lambda>b. b\<lparr>is_parent_booking := False,
                                          trip_id := None,
                                          route_polyline := None,
                                          updated_at := now2,
                                          last_modified_by := modifier,
                                          modification_notes :=
                                            Some ''All child bookings have been unmerged''\<rparr>) db1
                           else db1)
                in (Unmerged200, db2)))"

subsection \<open>The checkpoints of \<^verbatim>\<open>POST /api/bookings/check-merge-eligibility\<close>\<close>

text \<open>
  The body of the handler's loop over the child ids, for a parent that was found and is
  not merged: the checkpoints it reaches, in order, and whether the child is pushed to
  \<^verbatim>\<open>childBookings\<close>. The thresholds are the literals of the source (7 km, 15 minutes).
  A \<^verbatim>\<open>pickup_time\<close> is a \<^verbatim>\<open>Date\<close> here, so the handler's fallback to the current time
  is not reached.
\<close>

definition checkChild :: "booking list \<Rightarrow> booking \<Rightarrow> nat \<Rightarrow> checkpoint list \<times> bool" where
  "checkChild db parentBooking childId =
     (case selectById db childId of
        None \<Rightarrow> ([Existence], False)
      | Some childBooking \<Rightarrow>
          if is_merged childBooking then ([Existence, AlreadyMerged], False)
          else
            let pickupDistance = haversineDistance
                  (lat (coordinates (pickup_location parentBooking)))
                  (lng (coordinates (pickup_location parentBooking)))
                  (lat (coordinates (pickup_location childBooking)))
                  (lng (coordinates (pickup_location childBooking)))
            in
            if pickupDistance > 7
              then ([Existence, AlreadyMerged, PickupProximity], False)
            else
              let dropoffDistance = haversineDistance
                    (lat (coordinates (dropoff_location parentBooking)))
                    (lng (coordinates (dropoff_location parentBooking)))
                    (lat (coordinates (dropoff_location childBooking)))
                    (lng (coordinates (dropoff_location childBooking)))
              in
              if dropoffDistance > 7
                then ([Existence, AlreadyMerged, PickupProximity, DropoffProximity], False)
              else if booking_type parentBooking \<noteq> booking_type childBooking
                then ([Existence, AlreadyMerged, PickupProximity, DropoffProximity,
                       TypeCompatibility], False)
              else
                let pickupTimeDiffMin =
                      \<bar>real_of_int (pickup_time parentBooking - pickup_time childBooking)
                        / (60 * 1000)\<bar>
                in
                if pickupTimeDiffMin > 15
                  then ([Existence, AlreadyMerged, PickupProximity, DropoffProximity,
                         TypeCompatibility, TimeCompatibility], False)
                else ([Existence, AlreadyMerged, PickupProximity, DropoffProximity,
                       TypeCompatibility, TimeCompatibility], True))"

subsection \<open>Words of the specification\<close>

text \<open>
  A booking offends the preconditions of a merge when it does not exist or is merged
  already; an error describes the table when what it says of the booking it is about is
  the case.
\<close>

definition offends :: "booking list \<Rightarrow> nat \<Rightarrow> bool" where
  "offends db i = (case selectById db i of None \<Rightarrow> True | Some b \<Rightarrow> is_merged b)"

fun describes :: "booking list \<Rightarrow> nat \<Rightarrow> nat list \<Rightarrow> merge_error \<Rightarrow> bool" where
  "describes db p cs ParentNotFound = (selectById db p = None)"
| "describes db p cs ParentIsMerged =
     (case selectById db p of None \<Rightarrow> False | Some b \<Rightarrow> is_merged b)"
| "describes db p cs (ChildNotFound c) = (c \<in> set cs \<and> selectById db c = None)"
| "describes db p cs (ChildAlreadyMerged c) =
     (c \<in> set cs \<and> (case selectById db c of None \<Rightarrow> False | Some b \<Rightarrow> is_merged b))"

text \<open>
  What each checkpoint of \<open>checkCandidate\<close> tests, the order in which the source lists
  them (the vehicle check only for a candidate whose vehicle is found), and what running
  a list of checks in order with a stop at the first failure means: the checks made are
  the passing prefix and the first failing one, and the verdict is that none fails.
\<close>

fun checkHolds ::
  "config \<Rightarrow> (nat \<Rightarrow> vehicle option) \<Rightarrow> booking \<Rightarrow> booking \<Rightarrow> checkpoint \<Rightarrow> bool" where
  "checkHolds cfg getVehicle b c SelfExclusion = (booking_id b \<noteq> booking_id c)"
| "checkHolds cfg getVehicle b c PickupProximity =
     isPickupNearby cfg (pickup_location b) (pickup_location c)"
| "checkHolds cfg getVehicle b c DropoffProximity =
     isDropoffNearby cfg (dropoff_location b) (dropoff_location c)"
| "checkHolds cfg getVehicle b c TimeCompatibility =
     isTimeCompatible cfg (timesOf b) (timesOf c)"
| "checkHolds cfg getVehicle b c TypeCompatibility =
     passed (isBookingTypeCompatible cfg [b, c])"
| "checkHolds cfg getVehicle b c PriorityCompatibility =
     passed (isPriorityMatchSafe cfg [b, c])"
| "checkHolds cfg getVehicle b c VehicleCompatibility =
     (case candidateVehicle getVehicle c of
        None \<Rightarrow> True
      | Some v \<Rightarrow> passed (isVehicleCompatible cfg v [b, c]))"
| "checkHolds cfg getVehicle b c RouteDeviation =
     isRouteDeviationAllowed cfg (originalRouteOf b) (mergedRouteOf b c)"
| "checkHolds cfg getVehicle b c PickupGap = isPickupGapAcceptable cfg [b, c]"
| "checkHolds cfg getVehicle b c TripDuration = isDurationWithinLimit cfg (mergedRouteOf b c)"
| "checkHolds cfg getVehicle b c ZoneRestriction =
     isZoneAllowed [zoneOrEmpty (pickup_location b), zoneOrEmpty (pickup_location c),
                    zoneOrEmpty (dropoff_location b), zoneOrEmpty (dropoff_location c)]"
| "checkHolds cfg getVehicle b c Existence = True"
| "checkHolds cfg getVehicle b c AlreadyMerged = True"

definition checkOrder :: "(nat \<Rightarrow> vehicle option) \<Rightarrow> booking \<Rightarrow> checkpoint list" where
  "checkOrder getVehicle c =
     [SelfExclusion, PickupProximity, DropoffProximity, TimeCompatibility,
      TypeCompatibility, PriorityCompatibility] @
     (if candidateVehicle getVehicle c = None then [] else [VehicleCompatibility]) @
     [RouteDeviation, PickupGap, TripDuration, ZoneRestriction]"

definition shortCircuit :: "('a \<Rightarrow> bool) \<Rightarrow> 'a list \<Rightarrow> 'a list \<times> bool" where
  "shortCircuit ok checks =
     (takeWhile ok checks @ take 1 (dropWhile ok checks), list_all ok checks)"

text \<open>The same for the checkpoints of the handler.\<close>

fun childHolds :: "booking list \<Rightarrow> booking \<Rightarrow> nat \<Rightarrow> checkpoint \<Rightarrow> bool" where
  "childHolds db p c Existence = (selectById db c \<noteq> None)"
| "childHolds db p c AlreadyMerged =
     (case selectById db c of None \<Rightarrow> False | Some b \<Rightarrow> \<not> is_merged b)"
| "childHolds db p c PickupProximity =
     (case selectById db c of None \<Rightarrow> False
      | Some b \<Rightarrow> \<not> haversineDistance (lat (coordinates (pickup_location p)))
                      (lng (coordinates (pickup_location p)))
                      (lat (coordinates (pickup_location b)))
                      (lng (coordinates (pickup_location b))) > 7)"
| "childHolds db p c DropoffProximity =
     (case selectById db c of None \<Rightarrow> False
      | Some b \<Rightarrow> \<not> haversineDistance (lat (coordinates (dropoff_location p)))
                      (lng (coordinates (dropoff_location p)))
                      (lat (coordinates (dropoff_location b)))
                      (lng (coordinates (dropoff_location b))) > 7)"
| "childHolds db p c TypeCompatibility =
     (case selectById db c of None \<Rightarrow> False | Some b \<Rightarrow> booking_type p = booking_type b)"
| "childHolds db p c TimeCompatibility =
     (case selectById db c of None \<Rightarrow> False
      | Some b \<Rightarrow> \<not> \<bar>real_of_int (pickup_time p - pickup_time b) / (60 * 1000)\<bar> > 15)"
| "childHolds db p c other = True"

definition childOrder :: "checkpoint list" where
  "childOrder = [Existence, AlreadyMerged, PickupProximity, DropoffProximity,
                 TypeCompatibility, TimeCompatibility]"

subsection \<open>Example data\<close>

text \<open>
  Two bookings a kilometre apart on one meridian, each a trip of about two kilometres
  northwards, and an answer of the directions service with a given waypoint order.
\<close>

definition pA :: latlng where "pA = \<lparr>lat = 25.10, lng = 55.20\<rparr>"
definition dA :: latlng where "dA = \<lparr>lat = 25.12, lng = 55.20\<rparr>"
definition pB :: latlng where "pB = \<lparr>lat = 25.11, lng = 55.20\<rparr>"
definition dB :: latlng where "dB = \<lparr>lat = 25.13, lng = 55.20\<rparr>"

definition exampleBooking :: "nat \<Rightarrow> latlng \<Rightarrow> latlng \<Rightarrow> booking" where
  "exampleBooking i p d =
     \<lparr>booking_id = i, status = ''approved'',
      pickup_location = \<lparr>coordinates = p, zone = Some ''Marina''\<rparr>,
      dropoff_location = \<lparr>coordinates = d, zone = Some ''Downtown''\<rparr>,
      pickup_time = 0, dropoff_time = None, booking_type = ''passenger'',
      priority = ''Normal'', passenger_count = Some 1, vehicle_type = None,
      vehicle_id = None, assigned_vehicle_id = None, is_merged = False,
      merged_with_booking_id = None, parent_booking_id = None, merged_booking_ids = [],
      has_merged_trips = False, is_parent_booking = False, trip_id = None,
      optimized_route = None, pickup_sequence = None, dropoff_sequence = None,
      route_sequence = None, route_polyline = None, updated_at = 0,
      last_modified_by = ''system'', modification_notes = None\<rparr>"

definition exampleDb :: "booking list" where
  "exampleDb = [exampleBooking 1 pA dA, exampleBooking 2 pB dB]"

definition exampleReply :: "nat list \<Rightarrow> directions_reply" where
  "exampleReply ord =
     Reply ''OK'' [\<lparr>waypoint_order = Some ord,
                    legs = [\<lparr>distance_value = 3000, duration_value = 600\<rparr>],
                    overview_polyline = Some ''abc''\<rparr>]"

text \<open>The projection of a row on its id and its two sequence numbers.\<close>

definition sequencesOf :: "booking \<Rightarrow> nat \<times> int option \<times> int option" where
  "sequencesOf b = (booking_id b, pickup_sequence b, dropoff_sequence b)"

text \<open>
  The waypoints \<^verbatim>\<open>optimizeRoute\<close> builds for the two example bookings, and a table in
  which booking 2 is a merged child of booking 1, which holds the trip.
\<close>

definition examplePickups :: "point list" where
  "examplePickups = [\<lparr>location = pA, bookingId = 1\<rparr>, \<lparr>location = pB, bookingId = 2\<rparr>]"

definition exampleDropoffs :: "point list" where
  "exampleDropoffs = [\<lparr>location = dA, bookingId = 1\<rparr>, \<lparr>location = dB, bookingId = 2\<rparr>]"

definition exampleWaypoints :: "waypoint list" where
  "exampleWaypoints =
     [\<lparr>location = pA, bookingId = 1, stopType = pickup\<rparr>,
      \<lparr>location = pB, bookingId = 2, stopType = pickup\<rparr>,
      \<lparr>location = dA, bookingId = 1, stopType = dropoff\<rparr>,
      \<lparr>location = dB, bookingId = 2, stopType = dropoff\<rparr>]"





text \<open>
  Candidates for booking 1: itself, a booking with the same places and time, one of
  another type, one that is merged already, and one of another type and another day.
\<close>

definition candSelf :: booking where
  "candSelf = exampleBooking 1 pA dA"

definition candSame :: booking where
  "candSame = exampleBooking 2 pA dA"

definition candFreight :: booking where
  "candFreight = (exampleBooking 3 pA dA)\<lparr>booking_type := ''freight''\<rparr>"

definition candMerged :: booking where
  "candMerged = (exampleBooking 4 pA dA)\<lparr>is_merged := True, merged_with_booking_id := Some 9\<rparr>"

definition candLate :: booking where
  "candLate = (exampleBooking 5 pA dA)\<lparr>booking_type := ''freight'', pickup_time := 86400000\<rparr>"

definition exampleCandidates :: "booking list" where
  "exampleCandidates = [candSelf, candSame, candFreight, candMerged, candLate]"





section \<open>Properties\<close>

subsection \<open>Great-circle distance\<close>

text \<open>
  On real numbers the haversine term lies between 0 and 1 for all coordinates, so both
  square roots are defined and the distance is never negative.
\<close>

lemma atan2_nonneg: "0 \<le> y \<Longrightarrow> 0 \<le> atan2 y x"
proof -
  assume y: "0 \<le> y"
  have "- (pi / 2) < arctan (y / x)" by (rule arctan_lbound)
  moreover have "0 < x \<Longrightarrow> 0 \<le> arctan (y / x)" using y by simp
  moreover have "0 < pi" by simp
  ultimately show ?thesis using y
    unfolding atan2_def by (auto; linarith)
qed

lemma cos_prod_lower: "- (sin ((y - x) / 2) * sin ((y - x) / 2)) \<le> cos x * cos (y::real)"
proof -
  have "cos x * cos y = (cos (x - y) + cos (x + y)) / 2" by (rule cos_times_cos)
  moreover have "cos (x - y) = cos (y - x)" by (metis cos_minus minus_diff_eq)
  moreover have "cos (y - x) = 1 - 2 * (sin ((y - x) / 2))\<^sup>2"
  proof -
    have "2 * ((y - x) / 2) = y - x" by simp
    then show ?thesis using cos_double_sin [of "(y - x) / 2"] by metis
  qed
  moreover have "-1 \<le> cos (x + y)" by simp
  ultimately have "cos x * cos y = (1 - 2 * (sin ((y - x) / 2))\<^sup>2 + cos (x + y)) / 2"
    and "-1 \<le> cos (x + y)" by simp_all
  moreover have "\<And>s c p :: real. p = (1 - 2 * s + c) / 2 \<Longrightarrow> -1 \<le> c \<Longrightarrow> - s \<le> p"
    by simp
  ultimately show ?thesis unfolding power2_eq_square by blast
qed

lemma haversine_term_nonneg:
  "0 \<le> sin ((y - x) / 2) * sin ((y - x) / 2) + cos x * cos (y::real) * sin d * sin d"
proof (cases "0 \<le> cos x * cos y")
  case True
  have "0 \<le> sin d * sin d" by simp
  then have "0 \<le> cos x * cos y * (sin d * sin d)" using True by (rule mult_nonneg_nonneg [rotated])
  then show ?thesis by (simp add: mult.assoc)
next
  case False
  have "sin d * sin d \<le> 1" using sin_cos_squared_add3 [of d]
    by (smt (verit) zero_le_square)
  then have "cos x * cos y * 1 \<le> cos x * cos y * (sin d * sin d)"
    using False by (intro mult_left_mono_neg) auto
  then show ?thesis using cos_prod_lower [of y x] by (simp add: mult.assoc)
qed

lemma calculateDistance_nonneg: "0 \<le> calculateDistance lat1 lon1 lat2 lon2"
proof -
  have "toRadians (lat2 - lat1) = toRadians lat2 - toRadians lat1"
    by (simp add: toRadians_def left_diff_distrib)
  then show ?thesis
    unfolding calculateDistance_def Let_def EARTH_RADIUS_KM_def
    using haversine_term_nonneg [of "toRadians lat2" "toRadians lat1" "toRadians (lon2 - lon1) / 2"]
    by (simp add: atan2_nonneg)
qed

lemma calculateDistance_same: "calculateDistance la lo la lo = 0"
  by (simp add: calculateDistance_def toRadians_def atan2_def)

text \<open>
  Two points on one meridian: the distance is the arc between the latitudes. It gives the
  length of the example trip without an approximation of the trigonometric functions.
\<close>

lemma atan2_sin_cos: "0 \<le> x \<Longrightarrow> x < pi / 2 \<Longrightarrow> atan2 (sqrt (sin x * sin x)) (sqrt (1 - sin x * sin x)) = x"
proof -
  assume x: "0 \<le> x" "x < pi / 2"
  then have c: "0 < cos x" by (intro cos_gt_zero_pi) auto
  have s: "0 \<le> sin x" using x by (intro sin_ge_zero) auto
  have "1 - sin x * sin x = cos x * cos x"
    using sin_cos_squared_add3 [of x] by linarith
  then have "sqrt (1 - sin x * sin x) = cos x" using c by simp
  moreover have "sqrt (sin x * sin x) = sin x" using s by simp
  moreover have "arctan (sin x / cos x) = x"
    using arctan_tan [of x] x by (simp add: tan_def)
  ultimately show ?thesis using c by (simp add: atan2_def)
qed

lemma calculateDistance_meridian:
  assumes "lat1 \<le> lat2" and "lat2 - lat1 < 180"
  shows "calculateDistance lat1 lon lat2 lon = EARTH_RADIUS_KM * toRadians (lat2 - lat1)"
proof -
  let ?x = "toRadians (lat2 - lat1) / 2"
  have "0 \<le> ?x" using assms by (simp add: toRadians_def)
  moreover have "?x < pi / 2" using assms by (simp add: toRadians_def)
  ultimately have "atan2 (sqrt (sin ?x * sin ?x)) (sqrt (1 - sin ?x * sin ?x)) = ?x"
    by (rule atan2_sin_cos)
  then show ?thesis
    by (simp add: calculateDistance_def Let_def toRadians_def)
qed


lemma calculateDistance_sym:
  "calculateDistance lat1 lon1 lat2 lon2 = calculateDistance lat2 lon2 lat1 lon1"
proof -
  have "\<And>a b :: real. sin (toRadians (a - b) / 2) * sin (toRadians (a - b) / 2) =
                        sin (toRadians (b - a) / 2) * sin (toRadians (b - a) / 2)"
  proof -
    fix a b :: real
    have "a - b = - (b - a)" by simp
    then have "toRadians (a - b) / 2 = - (toRadians (b - a) / 2)"
      unfolding toRadians_def by (metis mult_minus_left minus_divide_left)
    then show "sin (toRadians (a - b) / 2) * sin (toRadians (a - b) / 2) =
               sin (toRadians (b - a) / 2) * sin (toRadians (b - a) / 2)"
      by (simp only: sin_minus) 
  qed
  then have "sin (toRadians (lat2 - lat1) / 2) * sin (toRadians (lat2 - lat1) / 2) =
             sin (toRadians (lat1 - lat2) / 2) * sin (toRadians (lat1 - lat2) / 2)"
    and "sin (toRadians (lon2 - lon1) / 2) * sin (toRadians (lon2 - lon1) / 2) =
         sin (toRadians (lon1 - lon2) / 2) * sin (toRadians (lon1 - lon2) / 2)"
    by blast+
  then show ?thesis
    unfolding calculateDistance_def Let_def by (simp add: mult.assoc mult.left_commute)
qed

lemma example_trip_length: "calculateDistance (lat pA) (lng pA) (lat dA) (lng dA) \<le> 3"
  using pi_less_4
  by (simp add: pA_def dA_def calculateDistance_meridian EARTH_RADIUS_KM_def toRadians_def)

lemma example_pickups_apart:
  "0 < calculateDistance (lat pB) (lng pB) (lat pA) (lng pA)"
proof -
  have "calculateDistance (lat pA) (lng pA) (lat pB) (lng pB) =
        EARTH_RADIUS_KM * toRadians (lat pB - lat pA)"
    by (simp add: pA_def pB_def calculateDistance_meridian)
  also have "\<dots> = 6371 * (pi / 18000)"
    by (simp add: pA_def pB_def EARTH_RADIUS_KM_def toRadians_def)
  finally have "calculateDistance (lat pB) (lng pB) (lat pA) (lng pA) = 6371 * (pi / 18000)"
    by (simp only: calculateDistance_sym [of "lat pB" "lng pB"])
  moreover have "0 < 6371 * (pi / 18000)" by simp
  ultimately show ?thesis by (simp only:)
qed

subsection \<open>The table under updates\<close>

lemma updateWhere_ids:
  "(\<And>b. booking_id (f b) = booking_id b) \<Longrightarrow> map booking_id (updateWhere c f db) = map booking_id db"
  by (induction db) (auto simp: updateWhere_def)

lemma setSequences_ids: "map booking_id (setSequences i p d db) = map booking_id db"
  by (simp add: setSequences_def updateWhere_ids)

lemma setSequences_row:
  assumes "b' \<in> set (setSequences i p d db)"
  shows "\<exists>b \<in> set db. booking_id b' = booking_id b \<and>
           (booking_id b = i \<longrightarrow> pickup_sequence b' = Some p \<and> dropoff_sequence b' = Some d) \<and>
           (booking_id b \<noteq> i \<longrightarrow> b' = b)"
proof -
  from assms obtain b where "b \<in> set db"
    and "b' = (if booking_id b = i
               then b\<lparr>pickup_sequence := Some p, dropoff_sequence := Some d\<rparr> else b)"
    unfolding setSequences_def updateWhere_def by auto
  then show ?thesis by (intro bexI [of _ b]) simp_all
qed

lemma filter_by_id:
  "map booking_id db' = ids \<Longrightarrow>
   map booking_id (filter (\<lambda>b. booking_id b = i) db') = filter (\<lambda>j. j = i) ids"
  by (induction db' arbitrary: ids) auto

lemma fallbackStep_apply:
  "fallbackStep ids i db =
     setSequences (ids ! i) (int i) (int (length ids) * 2 - int i - 1) db"
  by (simp add: fallbackStep_def)

lemma fold_ids:
  "(\<And>x db. map booking_id (f x db) = map booking_id db) \<Longrightarrow>
   map booking_id (fold f xs db) = map booking_id db"
  by (induction xs arbitrary: db) auto

lemma fallbackSequences_ids: "map booking_id (fallbackSequences ids db) = map booking_id db"
  unfolding fallbackSequences_def
  by (rule fold_ids) (simp add: fallbackStep_apply setSequences_ids)

lemma fallback_rows:
  "i < n \<Longrightarrow> n \<le> length ids \<Longrightarrow> ids ! i \<notin> set (drop (Suc i) (take n ids)) \<Longrightarrow>
   b \<in> set (fold (fallbackStep ids) [0..<n] db) \<Longrightarrow> booking_id b = ids ! i \<Longrightarrow>
   pickup_sequence b = Some (int i) \<and>
   dropoff_sequence b = Some (int (length ids) * 2 - int i - 1)"
proof (induction n arbitrary: b)
  case 0
  then show ?case by simp
next
  case (Suc n)
  have "fold (fallbackStep ids) [0..<Suc n] db =
        setSequences (ids ! n) (int n) (int (length ids) * 2 - int n - 1)
          (fold (fallbackStep ids) [0..<n] db)"
    by (simp add: fallbackStep_apply)
  with Suc.prems(4) have "b \<in> set (setSequences (ids ! n) (int n)
      (int (length ids) * 2 - int n - 1) (fold (fallbackStep ids) [0..<n] db))"
    by simp
  then obtain b0 where b0: "b0 \<in> set (fold (fallbackStep ids) [0..<n] db)"
    and id0: "booking_id b = booking_id b0"
    and hit: "booking_id b0 = ids ! n \<Longrightarrow> pickup_sequence b = Some (int n) \<and>
                dropoff_sequence b = Some (int (length ids) * 2 - int n - 1)"
    and miss: "booking_id b0 \<noteq> ids ! n \<Longrightarrow> b = b0"
    using setSequences_row by blast
  show ?case
  proof (cases "i = n")
    case True
    with hit id0 Suc.prems(5) show ?thesis by simp
  next
    case False
    with Suc.prems(1) have i: "i < n" by simp
    have n: "n < length ids" using Suc.prems(2) by simp
    have split: "drop (Suc i) (take (Suc n) ids) = drop (Suc i) (take n ids) @ [ids ! n]"
      using i n by (simp add: take_Suc_conv_app_nth)
    from Suc.prems(3) have ne: "ids ! n \<noteq> ids ! i"
      and earlier: "ids ! i \<notin> set (drop (Suc i) (take n ids))"
      unfolding split by auto
    from miss ne id0 Suc.prems(5) have "b = b0" by simp
    with Suc.IH [OF i _ earlier b0] Suc.prems(5) n show ?thesis by simp
  qed
qed

lemma fallbackSequences_rows:
  assumes "i < length ids" and "ids ! i \<notin> set (drop (Suc i) ids)"
      and "b \<in> set (fallbackSequences ids db)" and "booking_id b = ids ! i"
  shows "pickup_sequence b = Some (int i) \<and>
         dropoff_sequence b = Some (int (length ids) * 2 - int i - 1)"
  using fallback_rows [of i "length ids" ids b db] assms
  by (simp add: fallbackSequences_def)

lemma selectById_Some_iff: "(\<exists>b. selectById db i = Some b) \<longleftrightarrow> i \<in> set (map booking_id db)"
  by (induction db) (auto simp: selectById_def)

lemma selectById_SomeD: "selectById db i = Some b \<Longrightarrow> b \<in> set db \<and> booking_id b = i"
  by (auto simp: selectById_def find_Some_iff)

lemma verifyChildren_None:
  "verifyChildren db cs = None \<Longrightarrow> c \<in> set cs \<Longrightarrow>
   \<exists>b. selectById db c = Some b \<and> \<not> is_merged b"
  by (induction cs) (auto split: option.splits if_splits)


lemma markMerged_ids: "map booking_id (markMerged t r p cs db) = map booking_id db"
proof -
  have "map booking_id (markParent t r p cs db) = map booking_id db"
    by (simp add: markParent_def updateWhere_ids)
  moreover have "\<And>c db. map booking_id (markChild t p c db) = map booking_id db"
    by (simp add: markChild_def updateWhere_ids)
  ultimately show ?thesis
    unfolding markMerged_def by (simp add: fold_ids)
qed

lemma merge_success:
  assumes "merge apiKey reply t db p cs = (Inr res, db')"
  shows "(\<exists>pb. selectById db p = Some pb \<and> \<not> is_merged pb) \<and>
         verifyChildren db cs = None \<and>
         db' = assignSequences (trip_route (trip res)) p cs
                 (markMerged t (trip_route (trip res)) p cs db)"
  using assms
  by (auto simp: merge_def Let_def split: option.splits if_splits)

text \<open>
  Claim C4. When route optimisation returns null during a merge of \<open>N\<close> members, member
  \<open>i\<close> (counted from 0 over the parent and then the children) receives pickup sequence
  \<open>i\<close> and dropoff sequence \<open>2N - i - 1\<close>, and the first is less than the second for every
  \<open>i < N\<close>. The statement is about the table the successful transaction leaves: the row of
  member \<open>i\<close> exists and carries these two numbers, provided the same booking is not listed
  again after position \<open>i\<close> (a later write to the same row would replace them; for distinct
  ids that is every member).
\<close>

theorem fallback_numbering:
  assumes ok: "merge apiKey reply newTripId db parentBookingId childBookingIds = (Inr res, db')"
      and null: "trip_route (trip res) = None"
      and i: "i < length (parentBookingId # childBookingIds)"
      and later: "(parentBookingId # childBookingIds) ! i \<notin>
                    set (drop (Suc i) (parentBookingId # childBookingIds))"
  shows "(\<exists>b \<in> set db'. booking_id b = (parentBookingId # childBookingIds) ! i) \<and>
         (\<forall>b \<in> set db'. booking_id b = (parentBookingId # childBookingIds) ! i \<longrightarrow>
            pickup_sequence b = Some (int i) \<and>
            dropoff_sequence b =
              Some (2 * int (length (parentBookingId # childBookingIds)) - int i - 1)) \<and>
         int i < 2 * int (length (parentBookingId # childBookingIds)) - int i - 1"
proof -
  let ?ids = "parentBookingId # childBookingIds"
  from merge_success [OF ok] null obtain pb where
        pb: "selectById db parentBookingId = Some pb"
    and vc: "verifyChildren db childBookingIds = None"
    and db': "db' = fallbackSequences ?ids
                      (markMerged newTripId None parentBookingId childBookingIds db)"
    by (auto simp: assignSequences_def)
  have ids: "map booking_id db' = map booking_id db"
    by (simp add: db' fallbackSequences_ids markMerged_ids)
  have "?ids ! i \<in> set ?ids" using i by (intro nth_mem)
  then have "?ids ! i \<in> set (map booking_id db)"
    using pb verifyChildren_None [OF vc] selectById_Some_iff by (metis set_ConsD)
  then have ex: "\<exists>b \<in> set db'. booking_id b = ?ids ! i"
    unfolding ids [symmetric] by auto
  have rows: "\<forall>b \<in> set db'. booking_id b = ?ids ! i \<longrightarrow>
            pickup_sequence b = Some (int i) \<and>
            dropoff_sequence b = Some (2 * int (length ?ids) - int i - 1)"
    using fallbackSequences_rows [OF i later] unfolding db' by (simp add: mult.commute)
  from i have "int i < 2 * int (length ?ids) - int i - 1" by simp
  with ex rows show ?thesis by blast
qed


theorem fallback_numbering_witness:
  "\<exists>res db'. merge ''key'' Unreachable ''TRIP_20240101_000001'' exampleDb 1 [2] = (Inr res, db') \<and>
      trip_route (trip res) = None \<and>
      (1::nat) < length [1, 2 :: nat] \<and> [1, 2 :: nat] ! 1 \<notin> set (drop (Suc 1) [1, 2]) \<and>
      list_ex (\<lambda>b. booking_id b = 2) db' \<and>
      map sequencesOf (filter (\<lambda>b. booking_id b = 2) db') = [(2, Some 1, Some 2)]"
proof -
  obtain res db' where ok: "merge ''key'' Unreachable ''TRIP_20240101_000001'' exampleDb 1 [2]
      = (Inr res, db')" and null: "trip_route (trip res) = None"
    by (simp add: merge_def exampleDb_def exampleBooking_def selectById_def optimizeRoute_def
        pickupPointsOf_def dropoffPointsOf_def List.map_filter_def Let_def)
  have i: "1 < length [1, 2 :: nat]" by simp
  have later: "[1, 2 :: nat] ! 1 \<notin> set (drop (Suc 1) [1, 2])" by simp
  from fallback_numbering [OF ok null i later]
  have ex: "\<exists>b \<in> set db'. booking_id b = 2"
    and rows: "\<forall>b \<in> set db'. booking_id b = 2 \<longrightarrow>
                 pickup_sequence b = Some 1 \<and> dropoff_sequence b = Some 2"
    by simp_all
  from merge_success [OF ok] null
  have "db' = fallbackSequences [1, 2]
                (markMerged ''TRIP_20240101_000001'' None 1 [2] exampleDb)"
    by (simp add: assignSequences_def)
  then have "map booking_id db' = map booking_id exampleDb"
    by (simp only: fallbackSequences_ids markMerged_ids)
  then have "map booking_id db' = [1, 2]"
    by (simp add: exampleDb_def exampleBooking_def)
  from filter_by_id [OF this, of 2]
  obtain b where f: "filter (\<lambda>b. booking_id b = 2) db' = [b]" by auto
  have "b \<in> set (filter (\<lambda>b. booking_id b = 2) db')" unfolding f by simp
  then have "b \<in> set db'" and "booking_id b = 2" by simp_all
  with rows have "sequencesOf b = (2, Some 1, Some 2)" by (simp add: sequencesOf_def)
  with f have seqs: "map sequencesOf (filter (\<lambda>b. booking_id b = 2) db') = [(2, Some 1, Some 2)]"
    by simp
  from ex have "list_ex (\<lambda>b. booking_id b = 2) db'" by (simp add: list_ex_iff)
  with seqs ok null i later show ?thesis
    by (intro exI [of _ res] exI [of _ db'] conjI)
qed

subsection \<open>Preconditions of a merge\<close>

lemma verifyChildren_Some:
  "\<exists>c \<in> set cs. offends db c \<Longrightarrow>
   \<exists>e. verifyChildren db cs = Some e \<and> describes db p cs e"
proof (induction cs)
  case Nil
  then show ?case by simp
next
  case (Cons c cs)
  show ?case
  proof (cases "offends db c")
    case True
    then show ?thesis by (auto simp: offends_def split: option.splits)
  next
    case False
    with Cons.prems have "\<exists>c \<in> set cs. offends db c" by simp
    from Cons.IH [OF this] obtain e where e: "verifyChildren db cs = Some e"
      and d: "describes db p cs e" by blast
    from d have "describes db p (c # cs) e" by (cases e) auto
    with e False show ?thesis by (auto simp: offends_def split: option.splits)
  qed
qed

text \<open>
  Claim C2, as amended. If the parent does not exist or is merged already, or some child
  does not exist or is merged already, the merge fails, the table is exactly as it was, and
  the error describes a booking that offends: a child error carries the id of a listed
  child that is missing or merged, a parent error says that the parent is missing or
  merged. The parent errors carry no id: see the counterexample below.
\<close>

theorem merge_rejects:
  assumes "offends db parentBookingId \<or> (\<exists>c \<in> set childBookingIds. offends db c)"
  shows "\<exists>e. merge apiKey reply newTripId db parentBookingId childBookingIds = (Inl e, db) \<and>
             describes db parentBookingId childBookingIds e"
proof (cases "offends db parentBookingId")
  case True
  then show ?thesis
    by (auto simp: merge_def offends_def split: option.splits)
next
  case False
  with assms have "\<exists>c \<in> set childBookingIds. offends db c" by simp
  from verifyChildren_Some [OF this] obtain e
    where "verifyChildren db childBookingIds = Some e"
      and "describes db parentBookingId childBookingIds e" by blast
  with False show ?thesis
    by (auto simp: merge_def offends_def split: option.splits)
qed


theorem merge_rejects_witness:
  "offends exampleDb 7 \<and>
   merge ''key'' Unreachable ''TRIP_20240101_000001'' exampleDb 1 [2, 7] =
     (Inl (ChildNotFound 7), exampleDb) \<and>
   errorMessage (ChildNotFound 7) = ''Child booking with id 7 not found''"
proof -
  have o: "offends exampleDb 7"
    by (simp add: offends_def exampleDb_def exampleBooking_def selectById_def)
  then have "offends exampleDb 1 \<or> (\<exists>c \<in> set [2, 7]. offends exampleDb c)" by simp
  from merge_rejects [OF this, of "''key''" Unreachable "''TRIP_20240101_000001''"]
  obtain e where e: "merge ''key'' Unreachable ''TRIP_20240101_000001'' exampleDb 1 [2, 7] =
     (Inl e, exampleDb)" and d: "describes exampleDb 1 [2, 7] e" by blast
  have "e = ChildNotFound 7"
    using d by (cases e) (auto simp: exampleDb_def exampleBooking_def selectById_def)
  with o e show ?thesis by (simp add: showNat.simps digit_def)
qed

text \<open>
  The claim as stated asks for an error that names the offending booking. For an offending
  parent the error is the same whichever booking was passed: two different missing parents
  give one and the same message, which contains no id.
\<close>

theorem merge_parent_error_counterexample:
  "fst (merge ''key'' Unreachable ''TRIP_20240101_000001'' exampleDb 7 [2]) = Inl ParentNotFound \<and>
   fst (merge ''key'' Unreachable ''TRIP_20240101_000001'' exampleDb 8 [2]) = Inl ParentNotFound \<and>
   errorMessage ParentNotFound = ''Parent booking not found''"
  by (simp add: merge_def exampleDb_def exampleBooking_def selectById_def)

subsection \<open>The route sequencer\<close>

text \<open>
  What the two \<^verbatim>\<open>forEach\<close> loops leave in the first sequence map: every booking id of
  a waypoint is a key, and the position recorded for a booking and a stop kind is that of
  the one place in the order that holds such a waypoint.
\<close>

lemma map_of_initSequenceMap_fold:
  "map_of (fold (\<lambda>wp m. if map_of m (bookingId wp) = None
                   then AList.update (bookingId wp) \<lparr>pickupIndex = None, dropoffIndex = None\<rparr> m
                   else m) wps m0) b =
   (case map_of m0 b of
      Some pr \<Rightarrow> Some pr
    | None \<Rightarrow> if b \<in> bookingId ` set wps
              then Some \<lparr>pickupIndex = None, dropoffIndex = None\<rparr> else None)"
  by (induction wps arbitrary: m0) (auto simp: update_conv' split: option.splits)

lemma map_of_initSequenceMap:
  "map_of (initSequenceMap wps) b =
     (if b \<in> bookingId ` set wps
      then Some \<lparr>pickupIndex = None, dropoffIndex = None\<rparr> else None)"
  unfolding initSequenceMap_def by (simp add: map_of_initSequenceMap_fold)

lemma map_of_recordIndex:
  assumes "map_of m (bookingId (wps ! w)) = Some cur"
  shows "map_of (recordIndex wps (w, s) m) b =
           (if b = bookingId (wps ! w)
            then Some (if stopType (wps ! w) = pickup then cur\<lparr>pickupIndex := Some s\<rparr>
                       else cur\<lparr>dropoffIndex := Some s\<rparr>)
            else map_of m b)"
  using assms by (simp add: recordIndex_def update_conv')


lemma recordIndex_keys:
  assumes "fst e < length wps"
      and "\<forall>w < length wps. map_of m (bookingId (wps ! w)) \<noteq> None"
  shows "\<forall>w < length wps. map_of (recordIndex wps e m) (bookingId (wps ! w)) \<noteq> None"
proof -
  from assms obtain cur where "map_of m (bookingId (wps ! fst e)) = Some cur" by auto
  from map_of_recordIndex [OF this, of "snd e"] assms(2) show ?thesis by auto
qed

lemma fold_recordIndex:
  assumes "\<forall>e \<in> set es. fst e < length wps"
      and "\<forall>w < length wps. map_of m (bookingId (wps ! w)) \<noteq> None"
      and "\<forall>e \<in> set es. bookingId (wps ! fst e) = b \<and> stopType (wps ! fst e) = kd \<longrightarrow> snd e = j"
      and "(\<exists>e \<in> set es. bookingId (wps ! fst e) = b \<and> stopType (wps ! fst e) = kd) \<or>
           (\<exists>pr. map_of m b = Some pr \<and>
                 (if kd = pickup then pickupIndex pr else dropoffIndex pr) = Some j)"
  shows "\<exists>pr. map_of (fold (recordIndex wps) es m) b = Some pr \<and>
              (if kd = pickup then pickupIndex pr else dropoffIndex pr) = Some j"
  using assms
proof (induction es arbitrary: m)
  case Nil
  then show ?case by simp
next
  case (Cons e es)
  let ?m' = "recordIndex wps e m"
  from Cons.prems(1) have e: "fst e < length wps" by simp
  with Cons.prems(2) obtain cur where cur: "map_of m (bookingId (wps ! fst e)) = Some cur"
    by auto
  note eff = map_of_recordIndex [OF cur, of "snd e" b, simplified]
  have keys': "\<forall>w < length wps. map_of ?m' (bookingId (wps ! w)) \<noteq> None"
    using recordIndex_keys [OF e Cons.prems(2)] .
  have "(\<exists>e \<in> set es. bookingId (wps ! fst e) = b \<and> stopType (wps ! fst e) = kd) \<or>
        (\<exists>pr. map_of ?m' b = Some pr \<and>
              (if kd = pickup then pickupIndex pr else dropoffIndex pr) = Some j)"
  proof (cases "bookingId (wps ! fst e) = b \<and> stopType (wps ! fst e) = kd")
    case True
    with Cons.prems(3) have "snd e = j" by simp
    with True eff show ?thesis by (cases kd) auto
  next
    case False
    show ?thesis
    proof (cases "\<exists>e \<in> set es. bookingId (wps ! fst e) = b \<and> stopType (wps ! fst e) = kd")
      case True
      then show ?thesis by simp
    next
      case none: False
      with False Cons.prems(4) obtain pr where pr: "map_of m b = Some pr"
        and j: "(if kd = pickup then pickupIndex pr else dropoffIndex pr) = Some j" by auto
      show ?thesis
      proof (cases "bookingId (wps ! fst e) = b")
        case True
        with cur pr have "cur = pr" by simp
        with True False eff j show ?thesis
          by (cases kd; cases "stopType (wps ! fst e)") auto
      next
        case False
        with eff pr j show ?thesis by auto
      qed
    qed
  qed
  moreover have "\<forall>e \<in> set es. fst e < length wps" using Cons.prems(1) by simp
  moreover have "\<forall>e \<in> set es. bookingId (wps ! fst e) = b \<and> stopType (wps ! fst e) = kd
                   \<longrightarrow> snd e = j"
    using Cons.prems(3) by simp
  ultimately have "\<exists>pr. map_of (fold (recordIndex wps) es ?m') b = Some pr \<and>
              (if kd = pickup then pickupIndex pr else dropoffIndex pr) = Some j"
    using keys' by (intro Cons.IH) 
  then show ?case by simp
qed


lemma waypoint_at:
  assumes "map bookingId ds = map bookingId ps"
  shows "w < length ps \<Longrightarrow>
           (map pickupWaypoint ps @ map dropoffWaypoint ds) ! w = pickupWaypoint (ps ! w)"
    and "length ps \<le> w \<Longrightarrow> w < 2 * length ps \<Longrightarrow>
           (map pickupWaypoint ps @ map dropoffWaypoint ds) ! w =
           dropoffWaypoint (ds ! (w - length ps)) \<and>
           bookingId (ds ! (w - length ps)) = bookingId (ps ! (w - length ps))"
proof -
  have len: "length ds = length ps" using assms by (metis length_map)
  show "w < length ps \<Longrightarrow>
           (map pickupWaypoint ps @ map dropoffWaypoint ds) ! w = pickupWaypoint (ps ! w)"
    by (simp add: nth_append)
  assume w: "length ps \<le> w" "w < 2 * length ps"
  then have "w - length ps < length ps" by simp
  moreover from this have "map bookingId ds ! (w - length ps) = bookingId (ds ! (w - length ps))"
    using len by simp
  moreover from calculation have "map bookingId ps ! (w - length ps) = bookingId (ps ! (w - length ps))"
    by simp
  ultimately show "(map pickupWaypoint ps @ map dropoffWaypoint ds) ! w =
           dropoffWaypoint (ds ! (w - length ps)) \<and>
           bookingId (ds ! (w - length ps)) = bookingId (ps ! (w - length ps))"
    using w len assms by (simp add: nth_append)
qed

lemma waypoint_kind:
  assumes ids: "map bookingId ds = map bookingId ps" and dist: "distinct (map bookingId ps)"
      and k: "k < length ps" and w: "w < 2 * length ps"
      and same: "bookingId ((map pickupWaypoint ps @ map dropoffWaypoint ds) ! w) = bookingId (ps ! k)"
  shows "stopType ((map pickupWaypoint ps @ map dropoffWaypoint ds) ! w) = pickup \<Longrightarrow> w = k"
    and "stopType ((map pickupWaypoint ps @ map dropoffWaypoint ds) ! w) = dropoff \<Longrightarrow>
           w = length ps + k"
proof -
  let ?wps = "map pickupWaypoint ps @ map dropoffWaypoint ds"
  have inj: "\<And>a c. a < length ps \<Longrightarrow> c < length ps \<Longrightarrow>
               bookingId (ps ! a) = bookingId (ps ! c) \<Longrightarrow> a = c"
    using dist by (metis (no_types, lifting) length_map nth_eq_iff_index_eq nth_map)
  {
    assume p: "stopType (?wps ! w) = pickup"
    have "w < length ps"
    proof (rule ccontr)
      assume "\<not> w < length ps"
      with w waypoint_at(2) [OF ids, of w] have "stopType (?wps ! w) = dropoff"
        by (simp add: dropoffWaypoint_def)
      with p show False by simp
    qed
    with same waypoint_at(1) [OF ids, of w] have "bookingId (ps ! w) = bookingId (ps ! k)"
      by (simp add: pickupWaypoint_def)
    with inj \<open>w < length ps\<close> k show "w = k" by blast
  }
  {
    assume d: "stopType (?wps ! w) = dropoff"
    have ge: "length ps \<le> w"
    proof (rule ccontr)
      assume "\<not> length ps \<le> w"
      with waypoint_at(1) [OF ids, of w] have "stopType (?wps ! w) = pickup"
        by (simp add: pickupWaypoint_def)
      with d show False by simp
    qed
    with same w waypoint_at(2) [OF ids, of w]
    have "bookingId (ps ! (w - length ps)) = bookingId (ps ! k)"
      by (simp add: dropoffWaypoint_def)
    moreover have "w - length ps < length ps" using w ge by simp
    ultimately have "w - length ps = k" using inj k by blast
    with ge show "w = length ps + k" by simp
  }
qed

lemma violation_requires_adjustment:
  assumes ids: "map bookingId ds = map bookingId ps" and dist: "distinct (map bookingId ps)"
      and ord: "distinct ord" "\<forall>x \<in> set ord. x < 2 * length ps"
      and viol: "i < j" "j < length ord" "k < length ps"
                "ord ! i = length ps + k" "ord ! j = k"
  shows "requiresAdjustment (indexMap (map pickupWaypoint ps @ map dropoffWaypoint ds) ord)"
proof -
  let ?wps = "map pickupWaypoint ps @ map dropoffWaypoint ds"
  let ?es = "zip ord [0..<length ord]"
  let ?b = "bookingId (ps ! k)"
  have len: "length ?wps = 2 * length ps" using ids by (metis length_append length_map mult_2)
  have es: "\<And>e. e \<in> set ?es \<Longrightarrow> snd e < length ord \<and> fst e = ord ! snd e"
    by (auto simp: set_zip)
  have fst_in: "\<And>e. e \<in> set ?es \<Longrightarrow> fst e \<in> set ord"
    by (metis set_zip_leftD prod.collapse)
  have inrange: "\<forall>e \<in> set ?es. fst e < length ?wps"
  proof
    fix e assume "e \<in> set ?es"
    then have "fst e \<in> set ord" by (rule fst_in)
    with ord(2) have "fst e < 2 * length ps" by blast
    with len show "fst e < length ?wps" by simp
  qed
  have keys: "\<forall>w < length ?wps. map_of (initSequenceMap ?wps) (bookingId (?wps ! w)) \<noteq> None"
  proof (intro allI impI)
    fix w assume "w < length ?wps"
    then have "?wps ! w \<in> set ?wps" by (rule nth_mem)
    then have "bookingId (?wps ! w) \<in> bookingId ` set ?wps" by (rule imageI)
    then show "map_of (initSequenceMap ?wps) (bookingId (?wps ! w)) \<noteq> None"
      by (simp only: map_of_initSequenceMap if_True) simp
  qed
  have i: "i < length ord" using viol(1,2) by simp
  have mem: "(ord ! j, j) \<in> set ?es" "(ord ! i, i) \<in> set ?es"
    using viol(2) i by (auto simp: set_zip)
  have atk: "?wps ! k = pickupWaypoint (ps ! k)"
    using waypoint_at(1) [OF ids viol(3)] .
  have atd: "?wps ! (length ps + k) = dropoffWaypoint (ds ! k) \<and> bookingId (ds ! k) = ?b"
    using waypoint_at(2) [OF ids, of "length ps + k"] viol(3) by simp
  have "\<exists>pr. map_of (fold (recordIndex ?wps) ?es (initSequenceMap ?wps)) ?b = Some pr \<and>
             (if pickup = pickup then pickupIndex pr else dropoffIndex pr) = Some j"
  proof (rule fold_recordIndex [OF inrange keys])
    show "\<forall>e \<in> set ?es. bookingId (?wps ! fst e) = ?b \<and> stopType (?wps ! fst e) = pickup
            \<longrightarrow> snd e = j"
    proof (intro ballI impI)
      fix e assume e: "e \<in> set ?es"
        and h: "bookingId (?wps ! fst e) = ?b \<and> stopType (?wps ! fst e) = pickup"
      from fst_in [OF e] ord(2) have "fst e < 2 * length ps" by simp
      with waypoint_kind(1) [OF ids dist viol(3) this] h have "fst e = k" by simp
      with es [OF e] viol(5) have "ord ! snd e = ord ! j" and "snd e < length ord" by simp_all
      with ord(1) viol(2) show "snd e = j" by (simp add: nth_eq_iff_index_eq)
    qed
    show "(\<exists>e \<in> set ?es. bookingId (?wps ! fst e) = ?b \<and> stopType (?wps ! fst e) = pickup) \<or>
          (\<exists>pr. map_of (initSequenceMap ?wps) ?b = Some pr \<and>
                (if pickup = pickup then pickupIndex pr else dropoffIndex pr) = Some j)"
      using mem(1) viol(5) atk by (intro disjI1 bexI [of _ "(ord ! j, j)"])
        (simp_all add: pickupWaypoint_def)
  qed
  then obtain pr where pr: "map_of (indexMap ?wps ord) ?b = Some pr"
    and pj: "pickupIndex pr = Some j"
    unfolding indexMap_def by auto
  have "\<exists>pr. map_of (fold (recordIndex ?wps) ?es (initSequenceMap ?wps)) ?b = Some pr \<and>
             (if dropoff = pickup then pickupIndex pr else dropoffIndex pr) = Some i"
  proof (rule fold_recordIndex [OF inrange keys])
    show "\<forall>e \<in> set ?es. bookingId (?wps ! fst e) = ?b \<and> stopType (?wps ! fst e) = dropoff
            \<longrightarrow> snd e = i"
    proof (intro ballI impI)
      fix e assume e: "e \<in> set ?es"
        and h: "bookingId (?wps ! fst e) = ?b \<and> stopType (?wps ! fst e) = dropoff"
      from fst_in [OF e] ord(2) have "fst e < 2 * length ps" by simp
      with waypoint_kind(2) [OF ids dist viol(3) this] h have "fst e = length ps + k" by simp
      with es [OF e] viol(4) have "ord ! snd e = ord ! i" and "snd e < length ord" by simp_all
      with ord(1) i show "snd e = i" by (simp add: nth_eq_iff_index_eq)
    qed
    show "(\<exists>e \<in> set ?es. bookingId (?wps ! fst e) = ?b \<and> stopType (?wps ! fst e) = dropoff) \<or>
          (\<exists>pr. map_of (initSequenceMap ?wps) ?b = Some pr \<and>
                (if dropoff = pickup then pickupIndex pr else dropoffIndex pr) = Some i)"
      using mem(2) viol(4) atd by (intro disjI1 bexI [of _ "(ord ! i, i)"])
        (simp_all add: dropoffWaypoint_def)
  qed
  with pr have di: "dropoffIndex pr = Some i"
    unfolding indexMap_def by auto
  from pr have "(?b, pr) \<in> set (indexMap ?wps ord)" by (rule map_of_SomeD)
  moreover have "index_gt (pickupIndex pr) (dropoffIndex pr)"
    using pj di viol(1) by (simp add: index_gt_def)
  ultimately show ?thesis
    unfolding requiresAdjustment_def list_ex_iff by force
qed


lemma fold_append_found:
  "fold (\<lambda>b acc. case f b of Some m \<Rightarrow> acc @ [m] | None \<Rightarrow> acc) bs acc =
     acc @ List.map_filter f bs"
  by (induction bs arbitrary: acc) (auto split: option.splits)

lemma map_filter_total:
  "\<forall>b \<in> set bs. f b \<noteq> None \<Longrightarrow> List.map_filter f bs = map (\<lambda>b. the (f b)) bs"
  by (induction bs) (auto split: option.splits)

lemma filter_waypoints:
  "filter (\<lambda>wp. stopType wp = pickup) (map pickupWaypoint ps @ map dropoffWaypoint ds) =
     map pickupWaypoint ps"
  "filter (\<lambda>wp. stopType wp = dropoff) (map pickupWaypoint ps @ map dropoffWaypoint ds) =
     map dropoffWaypoint ds"
  by (simp_all add: filter_map comp_def pickupWaypoint_def dropoffWaypoint_def)

lemma find_dropoff:
  assumes "b \<in> set (map bookingId ds)"
  shows "\<exists>d. find (\<lambda>d. bookingId d = b) (map dropoffWaypoint ds) = Some d \<and>
             d \<in> set (map dropoffWaypoint ds) \<and> bookingId d = b \<and> stopType d = dropoff"
proof -
  from assms obtain pt where "pt \<in> set ds" "bookingId pt = b" by auto
  then have "\<exists>d \<in> set (map dropoffWaypoint ds). bookingId d = b"
    by (auto simp: dropoffWaypoint_def intro!: bexI [of _ pt])
  then obtain d where d: "find (\<lambda>d. bookingId d = b) (map dropoffWaypoint ds) = Some d"
    by (cases "find (\<lambda>d. bookingId d = b) (map dropoffWaypoint ds)")
       (auto simp: find_None_iff)
  then have "d \<in> set (map dropoffWaypoint ds)" "bookingId d = b"
    by (auto simp: find_Some_iff)
  moreover from this have "stopType d = dropoff" by (auto simp: dropoffWaypoint_def)
  ultimately show ?thesis using d by blast
qed

lemma repairOrder_eq:
  assumes ids: "map bookingId ds = map bookingId ps"
  shows "repairOrder start (map pickupWaypoint ps @ map dropoffWaypoint ds) =
           sort_key (distanceFrom start) (map pickupWaypoint ps) @
           map (\<lambda>b. the (find (\<lambda>d. bookingId d = b) (map dropoffWaypoint ds)))
             (map bookingId (sort_key (distanceFrom start) (map pickupWaypoint ps)))"
proof -
  let ?sp = "sort_key (distanceFrom start) (map pickupWaypoint ps)"
  have "set (map bookingId ?sp) = set (map bookingId ps)"
    by (auto simp: pickupWaypoint_def image_iff)
  then have "\<forall>b \<in> set (map bookingId ?sp).
               find (\<lambda>d. bookingId d = b) (map dropoffWaypoint ds) \<noteq> None"
    using find_dropoff [of _ ds] ids by (metis option.distinct(1))
  from map_filter_total [OF this] show ?thesis
    unfolding repairOrder_def Let_def filter_waypoints fold_append_found by simp
qed


lemma optimizeRoute_repair:
  assumes "apiKey \<noteq> []" and "ds \<noteq> []"
      and "waypoint_order g = Some ord"
      and "\<forall>x \<in> set ord. x < length (map pickupWaypoint ps @ map dropoffWaypoint ds)"
      and "requiresAdjustment (indexMap (map pickupWaypoint ps @ map dropoffWaypoint ds) ord)"
  shows "optimizeRoute apiKey (Reply ''OK'' (g # gs)) ps ds start =
           Some \<lparr>distance = sum_list (map distance_value (legs g)) / 1000,
                 duration = sum_list (map duration_value (legs g)) / 60,
                 waypoints = repairOrder start (map pickupWaypoint ps @ map dropoffWaypoint ds),
                 waypointOrder = [0..<length (repairOrder start
                                    (map pickupWaypoint ps @ map dropoffWaypoint ds))],
                 polyline = (case overview_polyline g of None \<Rightarrow> [] | Some pts \<Rightarrow> pts)\<rparr>"
proof -
  have "\<not> list_ex (\<lambda>idx. length (map pickupWaypoint ps @ map dropoffWaypoint ds) \<le> idx) ord"
    using assms(4) by (auto simp: list_ex_iff)
  with assms(1,2,3,5) show ?thesis
    unfolding optimizeRoute_def Let_def by simp
qed

text \<open>
  Claim C3. Whenever the order returned by the optimizer places some booking's dropoff
  before its own pickup, \<open>optimizeRoute\<close> discards that order and returns all pickups
  sorted ascending by great-circle distance from the start location, followed by each
  booking's dropoff in the same relative order as the pickups; in that order every
  booking's pickup index is less than its dropoff index. The setting is the one in which
  the handlers call it and the service answers: a key is configured, the answer is OK
  with a route, pickups and dropoffs list the same distinct bookings in the same order,
  and the returned order has no repeated and no out-of-range index. The waypoint array has
  pickup \<open>k\<close> at index \<open>k\<close> and dropoff \<open>k\<close> at index \<open>N + k\<close>.
\<close>

theorem repair_order:
  assumes key: "apiKey \<noteq> []"
      and reply: "reply = Reply ''OK'' (g # gs)" "waypoint_order g = Some ord"
      and ids: "map bookingId dropoffPoints = map bookingId pickupPoints"
               "distinct (map bookingId pickupPoints)"
      and ord: "distinct ord" "\<forall>x \<in> set ord. x < 2 * length pickupPoints"
      and viol: "i < j" "j < length ord" "k < length pickupPoints"
                "ord ! i = length pickupPoints + k" "ord ! j = k"
  shows "\<exists>r. optimizeRoute apiKey reply pickupPoints dropoffPoints startLocation = Some r \<and>
           take (length pickupPoints) (waypoints r) =
             sort_key (distanceFrom startLocation) (map pickupWaypoint pickupPoints) \<and>
           sorted (map (distanceFrom startLocation) (take (length pickupPoints) (waypoints r))) \<and>
           length (waypoints r) = 2 * length pickupPoints \<and>
           (\<forall>m < length pickupPoints.
              waypoints r ! (length pickupPoints + m) \<in> set (map dropoffWaypoint dropoffPoints) \<and>
              bookingId (waypoints r ! (length pickupPoints + m)) = bookingId (waypoints r ! m)) \<and>
           (\<forall>p < length (waypoints r). \<forall>q < length (waypoints r).
              stopType (waypoints r ! p) = pickup \<and> stopType (waypoints r ! q) = dropoff \<and>
              bookingId (waypoints r ! p) = bookingId (waypoints r ! q) \<longrightarrow> p < q)"
proof -
  let ?n = "length pickupPoints"
  let ?wps = "map pickupWaypoint pickupPoints @ map dropoffWaypoint dropoffPoints"
  let ?sp = "sort_key (distanceFrom startLocation) (map pickupWaypoint pickupPoints)"
  let ?dr = "map (\<lambda>b. the (find (\<lambda>d. bookingId d = b) (map dropoffWaypoint dropoffPoints)))
               (map bookingId ?sp)"
  let ?w = "?sp @ ?dr"
  have len: "length dropoffPoints = ?n" using ids(1) by (metis length_map)
  with viol(3) have ne: "dropoffPoints \<noteq> []" by auto
  have inr: "\<forall>x \<in> set ord. x < length ?wps" using ord(2) len by (simp add: mult_2)
  have adj: "requiresAdjustment (indexMap ?wps ord)"
    by (rule violation_requires_adjustment [OF ids ord viol])
  from optimizeRoute_repair [OF key ne reply(2) inr adj, of gs startLocation]
  obtain r where r: "optimizeRoute apiKey reply pickupPoints dropoffPoints startLocation = Some r"
    and w: "waypoints r = ?w"
    unfolding reply(1) repairOrder_eq [OF ids(1)] by simp
  have lsp: "length ?sp = ?n" by simp
  have ldr: "length ?dr = ?n" by simp
  have t: "take ?n ?w = ?sp" by simp
  have s: "sorted (map (distanceFrom startLocation) ?sp)" by (rule sorted_sort_key)
  have l: "length ?w = 2 * ?n" by simp
  have spset: "set (map bookingId ?sp) = set (map bookingId dropoffPoints)"
    unfolding ids(1) by (auto simp: pickupWaypoint_def image_iff)
  have d: "\<forall>m < ?n. ?w ! (?n + m) \<in> set (map dropoffWaypoint dropoffPoints) \<and>
                      bookingId (?w ! (?n + m)) = bookingId (?w ! m) \<and>
                      stopType (?w ! (?n + m)) = dropoff"
  proof (intro allI impI)
    fix m assume m: "m < ?n"
    then have "bookingId (?sp ! m) \<in> set (map bookingId ?sp)"
      by (metis lsp length_map nth_map nth_mem)
    with spset have "bookingId (?sp ! m) \<in> set (map bookingId dropoffPoints)" by simp
    from find_dropoff [OF this] obtain dw where
      dw: "find (\<lambda>d. bookingId d = bookingId (?sp ! m)) (map dropoffWaypoint dropoffPoints) = Some dw"
      and props: "dw \<in> set (map dropoffWaypoint dropoffPoints)"
                 "bookingId dw = bookingId (?sp ! m)" "stopType dw = dropoff"
      by blast
    have "?w ! (?n + m) = ?dr ! m" using lsp by (metis nth_append_length_plus)
    also have "\<dots> = dw" using m dw by simp
    finally have "?w ! (?n + m) = dw" .
    moreover have "?w ! m = ?sp ! m" using m by (simp add: nth_append)
    ultimately show "?w ! (?n + m) \<in> set (map dropoffWaypoint dropoffPoints) \<and>
                      bookingId (?w ! (?n + m)) = bookingId (?w ! m) \<and>
                      stopType (?w ! (?n + m)) = dropoff"
      using props by simp
  qed
  have pk: "\<forall>p < ?n. stopType (?w ! p) = pickup"
  proof (intro allI impI)
    fix p assume p: "p < ?n"
    then have "?sp ! p \<in> set ?sp" by (metis lsp nth_mem)
    then have "stopType (?sp ! p) = pickup" by (auto simp: pickupWaypoint_def)
    with p show "stopType (?w ! p) = pickup" by (simp add: nth_append)
  qed
  have prec: "\<forall>p < length ?w. \<forall>q < length ?w.
              stopType (?w ! p) = pickup \<and> stopType (?w ! q) = dropoff \<and>
              bookingId (?w ! p) = bookingId (?w ! q) \<longrightarrow> p < q"
  proof (intro allI impI)
    fix p q assume p: "p < length ?w" and q: "q < length ?w"
      and h: "stopType (?w ! p) = pickup \<and> stopType (?w ! q) = dropoff \<and>
              bookingId (?w ! p) = bookingId (?w ! q)"
    have "p < ?n"
    proof (rule ccontr)
      assume "\<not> p < ?n"
      then obtain m where "p = ?n + m" "m < ?n" using p l
        by (metis add_diff_inverse_nat add_less_cancel_left mult_2)
      with d have "stopType (?w ! p) = dropoff" by simp
      with h show False by simp
    qed
    moreover have "?n \<le> q"
    proof (rule ccontr)
      assume "\<not> ?n \<le> q"
      with pk have "stopType (?w ! q) = pickup" by simp
      with h show False by simp
    qed
    ultimately show "p < q" by simp
  qed
  from r t s l d prec show ?thesis unfolding w [symmetric] by (intro exI [of _ r]) simp
qed

theorem repair_order_witness:
  "''key'' \<noteq> [] \<and>
   map bookingId exampleDropoffs = map bookingId examplePickups \<and>
   distinct (map bookingId examplePickups) \<and>
   distinct [2, 0, 1 :: nat] \<and> list_all (\<lambda>x. x < 2 * length examplePickups) [2, 0, 1] \<and>
   [2, 0, 1 :: nat] ! 0 = length examplePickups + 0 \<and> [2, 0, 1 :: nat] ! 1 = 0 \<and>
   (\<exists>r. optimizeRoute ''key'' (exampleReply [2, 0, 1]) examplePickups exampleDropoffs pB = Some r \<and>
        take 2 (waypoints r) = [pickupWaypoint (examplePickups ! 1),
                                pickupWaypoint (examplePickups ! 0)] \<and>
        length (waypoints r) = 4 \<and>
        bookingId (waypoints r ! 2) = 2 \<and> bookingId (waypoints r ! 3) = 1)"
proof -
  have key: "''key'' \<noteq> []" by simp
  have reply: "exampleReply [2, 0, 1] =
                 Reply ''OK'' (\<lparr>waypoint_order = Some [2, 0, 1],
                                 legs = [\<lparr>distance_value = 3000, duration_value = 600\<rparr>],
                                 overview_polyline = Some ''abc''\<rparr> # [])"
    by (simp add: exampleReply_def)
  have wo: "waypoint_order \<lparr>waypoint_order = Some [2, 0, 1],
                            legs = [\<lparr>distance_value = 3000, duration_value = 600\<rparr>],
                            overview_polyline = Some ''abc''\<rparr> = Some [2, 0, 1]"
    by simp
  have ids: "map bookingId exampleDropoffs = map bookingId examplePickups"
    "distinct (map bookingId examplePickups)"
    by (simp_all add: examplePickups_def exampleDropoffs_def)
  have ord: "distinct [2, 0, 1 :: nat]" "\<forall>x \<in> set [2, 0, 1 :: nat]. x < 2 * length examplePickups"
    by (simp_all add: examplePickups_def)
  have viol: "(0::nat) < 1" "1 < length [2, 0, 1 :: nat]" "0 < length examplePickups"
    "[2, 0, 1 :: nat] ! 0 = length examplePickups + 0" "[2, 0, 1 :: nat] ! 1 = 0"
    by (simp_all add: examplePickups_def)
  have sorted: "sort_key (distanceFrom pB) (map pickupWaypoint examplePickups) =
                  [pickupWaypoint (examplePickups ! 1), pickupWaypoint (examplePickups ! 0)]"
    using example_pickups_apart
    by (simp add: examplePickups_def distanceFrom_def haversineDistance_def pickupWaypoint_def
        calculateDistance_same)
  from repair_order [OF key reply wo ids ord viol, of pB]
  obtain r where r: "optimizeRoute ''key'' (exampleReply [2, 0, 1]) examplePickups
                       exampleDropoffs pB = Some r"
    and t: "take (length examplePickups) (waypoints r) =
              sort_key (distanceFrom pB) (map pickupWaypoint examplePickups)"
    and l: "length (waypoints r) = 2 * length examplePickups"
    and d: "\<forall>m < length examplePickups.
              bookingId (waypoints r ! (length examplePickups + m)) = bookingId (waypoints r ! m)"
    by blast
  have n: "length examplePickups = 2" by (simp add: examplePickups_def)
  from t sorted n have t2: "take 2 (waypoints r) =
      [pickupWaypoint (examplePickups ! 1), pickupWaypoint (examplePickups ! 0)]" by simp
  from l n have l4: "length (waypoints r) = 4" by simp
  have w0: "waypoints r ! 0 = take 2 (waypoints r) ! 0" and w1: "waypoints r ! 1 = take 2 (waypoints r) ! 1"
    by simp_all
  from d [rule_format, of 0] d [rule_format, of 1] n
  have "bookingId (waypoints r ! 2) = bookingId (waypoints r ! 0)"
    and "bookingId (waypoints r ! 3) = bookingId (waypoints r ! 1)" by simp_all
  then have "bookingId (waypoints r ! 2) = 2" and "bookingId (waypoints r ! 3) = 1"
    unfolding w0 w1 t2 by (simp_all add: examplePickups_def pickupWaypoint_def)
  moreover have "list_all (\<lambda>x. x < 2 * length examplePickups) [2, 0, 1]"
    by (simp add: examplePickups_def)
  ultimately show ?thesis using key ids ord(1) viol r t2 l4 by simp
qed

text \<open>
  Every result of \<open>optimizeRoute\<close> carries the overview polyline of the answer it was made
  from, on the repair branch as on the other.
\<close>

text \<open>
  Claim C9, as amended. When the route sequencer produces a result from an answer of the
  optimizer (through the repair heuristic or not), the polyline field of the result is the
  overview polyline of that answer, and the empty string only if the answer has none.
\<close>

theorem result_polyline:
  assumes "optimizeRoute apiKey (Reply st (g # gs)) pickupPoints dropoffPoints start = Some r"
  shows "polyline r = (case overview_polyline g of None \<Rightarrow> [] | Some pts \<Rightarrow> pts)"
  using assms
  by (auto simp: optimizeRoute_def Let_def split: if_splits)

theorem result_polyline_witness:
  "\<exists>r. optimizeRoute ''key'' (exampleReply [2, 0, 1]) examplePickups exampleDropoffs pA = Some r \<and>
       polyline r = ''abc''"
proof -
  let ?g = "\<lparr>waypoint_order = Some [2, 0, 1],
             legs = [\<lparr>distance_value = 3000, duration_value = 600\<rparr>],
             overview_polyline = Some ''abc''\<rparr>"
  have "\<exists>r. optimizeRoute ''key'' (Reply ''OK'' (?g # [])) examplePickups exampleDropoffs pA
          = Some r"
    unfolding optimizeRoute_def Let_def
    by (simp add: examplePickups_def exampleDropoffs_def)
  then obtain r where r: "optimizeRoute ''key'' (Reply ''OK'' (?g # [])) examplePickups
                            exampleDropoffs pA = Some r" ..
  from result_polyline [OF r] r show ?thesis by (simp add: exampleReply_def)
qed

text \<open>
  The claim as stated: on the repair branch the polyline is the empty string. The order
  \<open>[2, 0, 1]\<close> puts the dropoff of booking 1 first, the repair branch is taken, and the
  polyline of the result is that of the answer.
\<close>

theorem repair_polyline_counterexample:
  "requiresAdjustment (indexMap exampleWaypoints [2, 0, 1]) \<and>
   map_option polyline
     (optimizeRoute ''key'' (exampleReply [2, 0, 1]) examplePickups exampleDropoffs pA) =
   Some ''abc''"
  by (simp add: optimizeRoute_def exampleReply_def examplePickups_def exampleDropoffs_def
      exampleWaypoints_def pickupWaypoint_def dropoffWaypoint_def Let_def indexMap_def
      initSequenceMap_def upt_conv_Cons recordIndex_def requiresAdjustment_def index_gt_def)

subsection \<open>Sequence numbers after a merge\<close>

lemma optimizeRoute_accepted_example:
  "optimizeRoute ''key'' (exampleReply [0, 1, 2]) examplePickups exampleDropoffs start =
     Some \<lparr>distance = 3, duration = 10, waypoints = take 3 exampleWaypoints,
           waypointOrder = [0, 1, 2], polyline = ''abc''\<rparr>"
  by (simp add: optimizeRoute_def exampleReply_def examplePickups_def exampleDropoffs_def
      exampleWaypoints_def pickupWaypoint_def dropoffWaypoint_def Let_def indexMap_def
      initSequenceMap_def upt_conv_Cons recordIndex_def requiresAdjustment_def index_gt_def)

lemma buildSequenceMap_accepted_example:
  "buildSequenceMap (take 3 exampleWaypoints) =
     [(1, \<lparr>pickupSequence = 0, dropoffSequence = 2\<rparr>),
      (2, \<lparr>pickupSequence = 1, dropoffSequence = - 1\<rparr>)]"
  by (simp add: buildSequenceMap_def recordSequence_def exampleWaypoints_def upt_conv_Cons)

text \<open>
  Claim C1 (every member of a completed merge has its pickup sequence below its dropoff
  sequence, on each of the three paths) fails on the path that accepts the optimizer's
  order. The last dropoff is sent as the destination and never appears in the returned
  order, so the accepted route has no waypoint for it, and the last child keeps the
  initial dropoff sequence \<open>-1\<close>. Here the answer is the identity order of the three
  intermediate waypoints of a merge of bookings 1 and 2.
\<close>

theorem merge_accepted_order_sequences:
  "map sequencesOf
     (snd (merge ''key'' (exampleReply [0, 1, 2]) ''TRIP_20240101_000001'' exampleDb 1 [2])) =
   [(1, Some 0, Some 2), (2, Some 1, Some (- 1))]"
  by (simp add: merge_def exampleDb_def selectById_def exampleBooking_def List.map_filter_def
      truthy_id_def pickupPointsOf_def dropoffPointsOf_def startLocationOf_def
      optimizeRoute_accepted_example [unfolded examplePickups_def exampleDropoffs_def, simplified]
      assignSequences_def
      buildSequenceMap_accepted_example [simplified] Let_def
      markMerged_def markParent_def markChild_def updateWhere_def
      applySequences_def setSequences_def sequencesOf_def)

theorem merge_accepted_order_sequences_witness:
  "\<not> isl (fst (merge ''key'' (exampleReply [0, 1, 2]) ''TRIP_20240101_000001'' exampleDb 1 [2])) \<and>
   list_ex (\<lambda>(i, p, d). i = 2 \<and> p = Some 1 \<and> d = Some (- 1))
     (map sequencesOf
        (snd (merge ''key'' (exampleReply [0, 1, 2]) ''TRIP_20240101_000001'' exampleDb 1 [2])))"
proof -
  have "\<not> isl (fst (merge ''key'' (exampleReply [0, 1, 2]) ''TRIP_20240101_000001'' exampleDb 1 [2]))"
    by (simp add: merge_def exampleDb_def selectById_def exampleBooking_def List.map_filter_def
        truthy_id_def Let_def split: option.split)
  then show ?thesis
    using merge_accepted_order_sequences by simp
qed

subsection \<open>Unmerge\<close>



text \<open>
  The same mismatch on the child's side: merge records the parent in
  \<^verbatim>\<open>merged_with_booking_id\<close>, unmerge looks for it in \<^verbatim>\<open>parent_booking_id\<close>, so a child
  merged by the handler above is refused by this one.
\<close>

lemma unmerge_after_merge_example:
  "fst (unmerge None 1000 1001
          (snd (merge ''key'' Unreachable ''TRIP_20240101_000001'' exampleDb 1 [2])) 2) =
   NotMerged400"
  by (simp add: merge_def exampleDb_def selectById_def exampleBooking_def List.map_filter_def
      optimizeRoute_def pickupPointsOf_def dropoffPointsOf_def assignSequences_def
      fallbackSequences_def fallbackStep_def setSequences_def markMerged_def markParent_def
      markChild_def updateWhere_def unmerge_def truthy_id_def upt_conv_Cons Let_def)

subsection \<open>Eligibility\<close>

lemma loop_filter:
  "checkMergeEligibility_loop cfg gv b cs acc =
     acc @ filter (\<lambda>c. snd (checkCandidate cfg gv b c)) cs"
  by (induction cs arbitrary: acc) auto

lemma checkCandidate_self: "booking_id c = booking_id b \<Longrightarrow> \<not> snd (checkCandidate cfg gv b c)"
  by (simp add: checkCandidate_def)

text \<open>
  Claim C7. Batch evaluation is a function of its inputs in which each candidate is
  decided on its own (the result is the filter of the candidate list by the verdict of
  the loop body); the eligible bookings are a subsequence of the candidates in their
  order; and no booking with the id of the base is among them.
\<close>

theorem batch_eligibility:
  "checkMergeEligibility cfg getVehicle b cs =
     filter (\<lambda>c. snd (checkCandidate cfg getVehicle b c)) cs \<and>
   subseq (checkMergeEligibility cfg getVehicle b cs) cs \<and>
   (\<forall>c \<in> set (checkMergeEligibility cfg getVehicle b cs). booking_id c \<noteq> booking_id b)"
proof -
  have eq: "checkMergeEligibility cfg getVehicle b cs =
            filter (\<lambda>c. snd (checkCandidate cfg getVehicle b c)) cs"
    by (simp add: checkMergeEligibility_def loop_filter)
  moreover have "subseq (filter (\<lambda>c. snd (checkCandidate cfg getVehicle b c)) cs) cs"
    by (rule subseq_filter_left)
  moreover have "\<forall>c \<in> set (filter (\<lambda>c. snd (checkCandidate cfg getVehicle b c)) cs).
                   booking_id c \<noteq> booking_id b"
    using checkCandidate_self by auto
  ultimately show ?thesis by simp
qed

lemmas eligibility_defs =
  checkCandidate_def isPickupNearby_def isDropoffNearby_def isTimeCompatible_def timesOf_def
  passed_def isBookingTypeCompatible_def isPriorityMatchSafe_def candidateVehicle_def
  originalRouteOf_def mergedRouteOf_def calculateRouteWithStops_def isRouteDeviationAllowed_def
  isPickupGapAcceptable_def isDurationWithinLimit_def isZoneAllowed_def DEFAULT_CONFIG_def
  Let_def

lemmas candidate_defs =
  candSelf_def candSame_def candFreight_def candMerged_def candLate_def exampleBooking_def

lemma example_candSelf:
  "checkCandidate DEFAULT_CONFIG (\<lambda>v. None) candSelf candSelf = ([SelfExclusion], False)"
  by (simp add: eligibility_defs candidate_defs)

lemma example_candSame:
  "checkCandidate DEFAULT_CONFIG (\<lambda>v. None) candSelf candSame =
     ([SelfExclusion, PickupProximity, DropoffProximity, TimeCompatibility, TypeCompatibility,
       PriorityCompatibility, RouteDeviation, PickupGap, TripDuration, ZoneRestriction], True)"
  using example_trip_length calculateDistance_nonneg [of "lat pA" "lng pA" "lat dA" "lng dA"]
  by (simp add: eligibility_defs candidate_defs calculateDistance_same)

lemma example_candFreight:
  "checkCandidate DEFAULT_CONFIG (\<lambda>v. None) candSelf candFreight =
     ([SelfExclusion, PickupProximity, DropoffProximity, TimeCompatibility, TypeCompatibility],
      False)"
  by (simp add: eligibility_defs candidate_defs calculateDistance_same)

lemma example_candMerged:
  "checkCandidate DEFAULT_CONFIG (\<lambda>v. None) candSelf candMerged =
     ([SelfExclusion, PickupProximity, DropoffProximity, TimeCompatibility, TypeCompatibility,
       PriorityCompatibility, RouteDeviation, PickupGap, TripDuration, ZoneRestriction], True)"
  using example_trip_length calculateDistance_nonneg [of "lat pA" "lng pA" "lat dA" "lng dA"]
  by (simp add: eligibility_defs candidate_defs calculateDistance_same)

lemma example_candLate:
  "checkCandidate DEFAULT_CONFIG (\<lambda>v. None) candSelf candLate =
     ([SelfExclusion, PickupProximity, DropoffProximity, TimeCompatibility], False)"
  by (simp add: eligibility_defs candidate_defs calculateDistance_same)

theorem batch_eligibility_witness:
  "checkMergeEligibility DEFAULT_CONFIG (\<lambda>v. None) candSelf exampleCandidates =
     [candSame, candMerged] \<and>
   subseq [candSame, candMerged] exampleCandidates \<and>
   list_all (\<lambda>c. booking_id c \<noteq> booking_id candSelf) [candSame, candMerged]"
proof -
  note inst = batch_eligibility [of DEFAULT_CONFIG "\<lambda>v. None" candSelf exampleCandidates]
  have f: "filter (\<lambda>c. snd (checkCandidate DEFAULT_CONFIG (\<lambda>v. None) candSelf c))
             exampleCandidates = [candSame, candMerged]"
    by (simp add: exampleCandidates_def example_candSelf example_candSame example_candFreight
        example_candMerged example_candLate)
  from inst have "checkMergeEligibility DEFAULT_CONFIG (\<lambda>v. None) candSelf exampleCandidates =
      filter (\<lambda>c. snd (checkCandidate DEFAULT_CONFIG (\<lambda>v. None) candSelf c)) exampleCandidates"
    by (rule conjunct1)
  then have eq: "checkMergeEligibility DEFAULT_CONFIG (\<lambda>v. None) candSelf exampleCandidates =
      [candSame, candMerged]"
    unfolding f .
  from inst have "subseq (checkMergeEligibility DEFAULT_CONFIG (\<lambda>v. None) candSelf
      exampleCandidates) exampleCandidates"
    by (rule conjunct1 [OF conjunct2])
  then have sub: "subseq [candSame, candMerged] exampleCandidates" unfolding eq .
  from inst have "\<forall>c \<in> set (checkMergeEligibility DEFAULT_CONFIG (\<lambda>v. None) candSelf
      exampleCandidates). booking_id c \<noteq> booking_id candSelf"
    by (rule conjunct2 [OF conjunct2])
  then have "list_all (\<lambda>c. booking_id c \<noteq> booking_id candSelf) [candSame, candMerged]"
    unfolding eq list_all_iff .
  with eq sub show ?thesis by (intro conjI)
qed

lemma shortCircuit_pass: "ok x \<Longrightarrow> shortCircuit ok (x # xs) = (x # fst (shortCircuit ok xs), snd (shortCircuit ok xs))"
  by (simp add: shortCircuit_def)

lemma shortCircuit_fail: "\<not> ok x \<Longrightarrow> shortCircuit ok (x # xs) = ([x], False)"
  by (simp add: shortCircuit_def)

lemma shortCircuit_Nil: "shortCircuit ok [] = ([], True)"
  by (simp add: shortCircuit_def)

lemma checkCandidate_order:
  "checkCandidate cfg getVehicle b c =
     shortCircuit (checkHolds cfg getVehicle b c) (checkOrder getVehicle c)"
  unfolding checkCandidate_def checkOrder_def Let_def
  by (cases "candidateVehicle getVehicle c")
     (simp_all add: shortCircuit_pass shortCircuit_fail shortCircuit_Nil)

lemma checkChild_order:
  "checkChild db p c = shortCircuit (childHolds db p c) childOrder"
  unfolding checkChild_def childOrder_def Let_def
  by (cases "selectById db c")
     (simp_all add: shortCircuit_pass shortCircuit_fail shortCircuit_Nil)

text \<open>
  Claim C6, as amended. The evaluation of one candidate runs its checks in a fixed order
  and stops at the first that fails. For \<open>checkMergeEligibility\<close> the order is
  self-exclusion, pickup proximity, dropoff proximity, time, type, priority, vehicle (only
  when the candidate's vehicle is found), route deviation, pickup gap, trip duration, zone
  restriction: time comes before type and priority, and there is no already-merged check.
  For the handler \<^verbatim>\<open>check-merge-eligibility\<close> it is existence, already-merged, pickup,
  dropoff, type, pickup time.
\<close>

theorem checks_in_order:
  "checkCandidate cfg getVehicle b c =
     shortCircuit (checkHolds cfg getVehicle b c) (checkOrder getVehicle c) \<and>
   checkChild db p i = shortCircuit (childHolds db p i) childOrder"
  using checkCandidate_order checkChild_order by simp

theorem checks_in_order_witness:
  "checkCandidate DEFAULT_CONFIG (\<lambda>v. None) candSelf candLate =
     ([SelfExclusion, PickupProximity, DropoffProximity, TimeCompatibility], False) \<and>
   shortCircuit (checkHolds DEFAULT_CONFIG (\<lambda>v. None) candSelf candLate)
     (checkOrder (\<lambda>v. None) candLate) =
     ([SelfExclusion, PickupProximity, DropoffProximity, TimeCompatibility], False)"
  using checks_in_order [of DEFAULT_CONFIG "\<lambda>v. None" candSelf candLate] example_candLate
  by simp

text \<open>
  The claim as stated puts type and priority before time and has an already-merged check.
  A candidate of another type is put to the time check before the type check rejects it,
  and a candidate that is merged already is found eligible.
\<close>

theorem claimed_order_counterexample:
  "\<not> checkHolds DEFAULT_CONFIG (\<lambda>v. None) candSelf candFreight TypeCompatibility \<and>
   fst (checkCandidate DEFAULT_CONFIG (\<lambda>v. None) candSelf candFreight) =
     [SelfExclusion, PickupProximity, DropoffProximity, TimeCompatibility, TypeCompatibility] \<and>
   is_merged candMerged \<and>
   snd (checkCandidate DEFAULT_CONFIG (\<lambda>v. None) candSelf candMerged)"
  by (simp add: example_candFreight example_candMerged)
     (simp add: candidate_defs passed_def isBookingTypeCompatible_def DEFAULT_CONFIG_def)

text \<open>
  Claim C10, as amended. \<open>calculateRouteWithStops\<close> returns distance 0 and duration 0 for
  every input; so in \<open>checkMergeEligibility\<close> the trip-duration check passes exactly when
  the configured maximum trip duration is not negative, and the route-deviation check
  accepts a pair exactly when the great-circle distance from the base booking's pickup to
  its dropoff is at most the configured tolerance.
\<close>

theorem stub_route_consequences:
  "distance (calculateRouteWithStops origin destination stops) = 0 \<and>
   duration (calculateRouteWithStops origin destination stops) = 0 \<and>
   (isDurationWithinLimit cfg (mergedRouteOf b c) \<longleftrightarrow>
      0 \<le> TRIP_MERGE_MAX_TRIP_DURATION_MINUTES cfg) \<and>
   (isRouteDeviationAllowed cfg (originalRouteOf b) (mergedRouteOf b c) \<longleftrightarrow>
      calculateDistance
        (lat (coordinates (pickup_location b))) (lng (coordinates (pickup_location b)))
        (lat (coordinates (dropoff_location b))) (lng (coordinates (dropoff_location b)))
      \<le> TRIP_MERGE_ROUTE_DEVIATION_TOLERANCE_KM cfg)"
proof -
  have "0 \<le> calculateDistance
        (lat (coordinates (pickup_location b))) (lng (coordinates (pickup_location b)))
        (lat (coordinates (dropoff_location b))) (lng (coordinates (dropoff_location b)))"
    by (rule calculateDistance_nonneg)
  then show ?thesis
    by (simp add: calculateRouteWithStops_def isDurationWithinLimit_def mergedRouteOf_def
        isRouteDeviationAllowed_def originalRouteOf_def Let_def)
qed

theorem stub_route_consequences_witness:
  "isDurationWithinLimit DEFAULT_CONFIG (mergedRouteOf candSelf candSame) \<and>
   isRouteDeviationAllowed DEFAULT_CONFIG (originalRouteOf candSelf)
     (mergedRouteOf candSelf candSame)"
proof -
  note inst = stub_route_consequences [of pA dA "[]" DEFAULT_CONFIG candSelf candSame]
  have limit: "0 \<le> TRIP_MERGE_MAX_TRIP_DURATION_MINUTES DEFAULT_CONFIG"
    by (simp add: DEFAULT_CONFIG_def)
  have near: "calculateDistance
      (lat (coordinates (pickup_location candSelf))) (lng (coordinates (pickup_location candSelf)))
      (lat (coordinates (dropoff_location candSelf))) (lng (coordinates (dropoff_location candSelf)))
      \<le> TRIP_MERGE_ROUTE_DEVIATION_TOLERANCE_KM DEFAULT_CONFIG"
    using example_trip_length by (simp add: DEFAULT_CONFIG_def candSelf_def exampleBooking_def)
  from inst limit near show ?thesis by blast
qed

text \<open>
  The claim as stated: the trip-duration check always passes. With a negative maximum in
  the configuration it fails, and the candidate is rejected there.
\<close>

theorem negative_duration_limit_counterexample:
  "checkCandidate (DEFAULT_CONFIG\<lparr>TRIP_MERGE_MAX_TRIP_DURATION_MINUTES := - 1\<rparr>) (\<lambda>v. None)
     candSelf candSame =
   ([SelfExclusion, PickupProximity, DropoffProximity, TimeCompatibility, TypeCompatibility,
     PriorityCompatibility, RouteDeviation, PickupGap, TripDuration], False) \<and>
   \<not> isDurationWithinLimit (DEFAULT_CONFIG\<lparr>TRIP_MERGE_MAX_TRIP_DURATION_MINUTES := - 1\<rparr>)
       (mergedRouteOf candSelf candSame)"
  using example_trip_length calculateDistance_nonneg [of "lat pA" "lng pA" "lat dA" "lng dA"]
  by (simp add: eligibility_defs candidate_defs calculateDistance_same)

subsection \<open>Recommendations\<close>











end
